theory Spec2Isabelle
  imports Complex_Main "HOL-Library.Multiset"
begin

section \<open>Python text primitives\<close>

text \<open>
  The program is Python: \<^verbatim>\<open>intelligence.py\<close> (chunking, scoring, duplicate
  detection) and \<^verbatim>\<open>memory.py\<close> (the coordinator), on top of \<^verbatim>\<open>store.py\<close>.

  A Python \<^verbatim>\<open>str\<close> is modelled as a \<^typ>\<open>string\<close> whose characters are the code
  points U+0000 to U+00FF, so \<^const>\<open>length\<close> is Python's \<^verbatim>\<open>len\<close>. On that range
  the character classes of Python are written out exactly: \<^verbatim>\<open>str.isspace\<close> and the
  regular expression class \<^verbatim>\<open>\s\<close> hold of TAB, LF, VT, FF, CR, the separators
  U+001C to U+001F, SPACE, U+0085 and U+00A0; \<^verbatim>\<open>\d\<close> holds of the ten ASCII digits;
  \<^verbatim>\<open>str.lower\<close> moves A-Z and the capital letters U+00C0 to U+00DE (U+00D7, the
  multiplication sign, apart) up by 32.

  A Python \<^verbatim>\<open>float\<close> is a finite IEEE 754 double, modelled as the \<^typ>\<open>real\<close> it
  denotes; the infinities and NaN are not values of the model. The arithmetic of
  \<^verbatim>\<open>deduplicate_content\<close> and \<^verbatim>\<open>retrieve\<close> rounds every result to the nearest
  double, as the section on double arithmetic defines it. The score of \<^verbatim>\<open>compute_importance\<close> is
  computed in exact arithmetic: rounding moves its value by a few units in the last
  place and leaves its bounds and its exact zero as they are.
\<close>

definition is_space :: "char \<Rightarrow> bool" where
  "is_space c =
     (let n = (of_char c :: nat)
      in (9 \<le> n \<and> n \<le> 13) \<or> (28 \<le> n \<and> n \<le> 32) \<or> n = 133 \<or> n = 160)"

definition is_digit :: "char \<Rightarrow> bool" where
  "is_digit c = (let n = (of_char c :: nat) in 48 \<le> n \<and> n \<le> 57)"

definition lower_char :: "char \<Rightarrow> char" where
  "lower_char c =
     (let n = (of_char c :: nat)
      in if (65 \<le> n \<and> n \<le> 90) \<or> (192 \<le> n \<and> n \<le> 222 \<and> n \<noteq> 215)
         then char_of (n + 32) else c)"

text \<open>\<^verbatim>\<open>text.lower()\<close>\<close>

definition lower :: "string \<Rightarrow> string" where
  "lower s = map lower_char s"

text \<open>\<^verbatim>\<open>text.strip()\<close>: whitespace removed at both ends.\<close>

definition strip :: "string \<Rightarrow> string" where
  "strip s = rev (dropWhile is_space (rev (dropWhile is_space s)))"

text \<open>
  \<^verbatim>\<open>text.split()\<close>: the maximal runs of characters that are not whitespace. The
  scanner keeps the word being read, reversed, in \<open>cur\<close>.
\<close>

fun split_words :: "string \<Rightarrow> string \<Rightarrow> string list" where
  "split_words cur [] = (if cur = [] then [] else [rev cur])"
| "split_words cur (c # cs) =
     (if is_space c
      then (if cur = [] then split_words [] cs else rev cur # split_words [] cs)
      else split_words (c # cur) cs)"

definition split :: "string \<Rightarrow> string list" where
  "split s = split_words [] s"

text \<open>\<^verbatim>\<open>sep.join(parts)\<close>\<close>

fun join :: "string \<Rightarrow> string list \<Rightarrow> string" where
  "join sep [] = []"
| "join sep [x] = x"
| "join sep (x # y # ys) = x @ sep @ join sep (y # ys)"

abbreviation NL :: char where
  "NL \<equiv> CHR 0x0A"

section \<open>Double arithmetic\<close>

text \<open>\<^verbatim>\<open>n.bit_length()\<close>: the number of binary digits of \<open>n\<close>.\<close>

fun bit_length :: "nat \<Rightarrow> nat" where
  "bit_length n = (if n = 0 then 0 else Suc (bit_length (n div 2)))"

declare bit_length.simps [simp del]

text \<open>
  The binary exponent of \<open>x > 0\<close>: the \<open>e\<close> with \<open>2 ^ e \<le> x < 2 ^ (e + 1)\<close>. Below 1
  it is read off the reciprocal, which is a power of two or lies strictly between two.
\<close>

definition ilog2 :: "real \<Rightarrow> int" where
  "ilog2 x =
     (if 1 \<le> x then int (bit_length (nat \<lfloor>x\<rfloor>)) - 1
      else (let k = int (bit_length (nat \<lfloor>1 / x\<rfloor>)) - 1
            in if 1 / x = 2 ^ nat k then - k else - k - 1))"

text \<open>Rounding to the nearest integer, a tie going to the even one.\<close>

definition round_half_even :: "real \<Rightarrow> int" where
  "round_half_even m =
     (let f = \<lfloor>m\<rfloor>
      in if m - of_int f < 1 / 2 then f
         else if m - of_int f > 1 / 2 then f + 1
         else if even f then f else f + 1)"

text \<open>
  The nearest double, with no bound on the exponent above: a double is an integer
  multiple, of at most 53 binary digits, of the spacing \<open>u\<close>, which is \<open>2 ^ (e - 52)\<close>
  for a value of exponent \<open>e\<close> and \<open>2 ^ (- 1074)\<close> for the subnormal values (exponent
  below \<open>- 1022\<close>).
\<close>

definition nearest :: "real \<Rightarrow> real" where
  "nearest x =
     (if x = 0 then 0
      else (let e = max (ilog2 \<bar>x\<bar>) (- 1022); u = 2 powi (e - 52)
            in of_int (round_half_even (x / u)) * u))"

text \<open>A rounded value beyond the largest double: its exponent is above 1023.\<close>

definition overflows :: "real \<Rightarrow> bool" where
  "overflows r = (r \<noteq> 0 \<and> 1023 < ilog2 \<bar>r\<bar>)"

text \<open>
  The result of an arithmetic operation whose exact value is \<open>x\<close> (round to nearest,
  ties to even). An overflowing result is an infinity in Python; \<open>2 ^ 1024\<close> stands
  for it here. On doubles only the sum that forms the sort key of \<^verbatim>\<open>retrieve\<close> can
  overflow, and that key is only compared: \<open>2 ^ 1024\<close> is above every double, as the
  infinity is.
\<close>

definition fl :: "real \<Rightarrow> real" where
  "fl x = (let r = nearest x in if overflows r then sgn r * 2 ^ 1024 else r)"

section \<open>The regular expressions of intelligence.py\<close>

text \<open>
  \<^verbatim>\<open>re.split(r"\n\s*\n", text)\<close>. A match starts at a line feed; \<^verbatim>\<open>\s*\<close> is greedy
  and a line feed is itself whitespace, so the match ends with the last line feed of
  the whitespace run that follows the first one. \<open>blank_line_end rest\<close> is the number
  of characters of \<open>rest\<close> (the text after the first line feed) that the match takes,
  or \<open>None\<close> when that run holds no line feed.
\<close>

definition blank_line_end :: "string \<Rightarrow> nat option" where
  "blank_line_end rest =
     (let ws = takeWhile is_space rest
      in if NL \<in> set ws
         then Some (length ws - length (takeWhile (\<lambda>c. c \<noteq> NL) (rev ws)))
         else None)"

fun split_blank_lines :: "string \<Rightarrow> string \<Rightarrow> string list" where
  "split_blank_lines cur [] = [rev cur]"
| "split_blank_lines cur (c # cs) =
     (if c = NL
      then (case blank_line_end cs of
              Some k \<Rightarrow> rev cur # split_blank_lines [] (drop k cs)
            | None \<Rightarrow> split_blank_lines (c # cur) cs)
      else split_blank_lines (c # cur) cs)"

text \<open>
  \<^verbatim>\<open>re.split(r"(?<=[.!?])\s+", text)\<close>. A match starts at a whitespace character
  that follows one of \<^verbatim>\<open>. ! ?\<close> and takes the whole whitespace run. \<open>p\<close> tells
  whether the character before the current position is one of the three.
\<close>

definition sentence_end :: "char \<Rightarrow> bool" where
  "sentence_end c = (c = CHR ''.'' \<or> c = CHR ''!'' \<or> c = CHR ''?'')"

function split_after_punct :: "bool \<Rightarrow> string \<Rightarrow> string \<Rightarrow> string list" where
  "split_after_punct p cur [] = [rev cur]"
| "split_after_punct p cur (c # cs) =
     (if is_space c \<and> p
      then rev cur # split_after_punct False [] (dropWhile is_space cs)
      else split_after_punct (sentence_end c) (c # cur) cs)"
  by pat_completeness auto
termination
  by (relation "measure (\<lambda>(p, cur, s). length s)")
     (auto simp: le_imp_less_Suc length_dropWhile_le)

text \<open>
  \<^verbatim>\<open>re.search(r"(^\s*[-*\d]\.?\s|```|:\s*$)", text, re.MULTILINE)\<close>, as a truth
  value. The three alternatives, each tried at the head of a suffix of the text:
  a list marker (only at the start of a line), a code fence, a colon that ends a line.
\<close>

definition list_marker :: "string \<Rightarrow> bool" where
  "list_marker s =
     (case dropWhile is_space s of
        [] \<Rightarrow> False
      | c # r \<Rightarrow>
          (c = CHR ''-'' \<or> c = CHR ''*'' \<or> is_digit c) \<and>
          (case r of
             [] \<Rightarrow> False
           | d # r' \<Rightarrow>
               is_space d \<or>
               (d = CHR ''.'' \<and> (case r' of [] \<Rightarrow> False | e # _ \<Rightarrow> is_space e))))"

definition code_fence :: "string \<Rightarrow> bool" where
  "code_fence s = (take 3 s = ''```'')"

definition colon_eol :: "string \<Rightarrow> bool" where
  "colon_eol s =
     (case s of
        [] \<Rightarrow> False
      | c # r \<Rightarrow> c = CHR '':'' \<and> (dropWhile is_space r = [] \<or> NL \<in> set (takeWhile is_space r)))"

fun search_structure :: "bool \<Rightarrow> string \<Rightarrow> bool" where
  "search_structure bol [] = False"
| "search_structure bol (c # cs) =
     ((bol \<and> list_marker (c # cs)) \<or> code_fence (c # cs) \<or> colon_eol (c # cs)
      \<or> search_structure (c = NL) cs)"

section \<open>intelligence.py\<close>

subsection \<open>chunk\_text\<close>

text \<open>\<^verbatim>\<open>_split_sentences\<close>\<close>

definition split_sentences :: "string \<Rightarrow> string list" where
  "split_sentences text =
     map strip (filter (\<lambda>p. strip p \<noteq> []) (split_after_punct False [] text))"

text \<open>
  The inner loop of \<^verbatim>\<open>chunk_text\<close> over the sentences of a long paragraph. Its
  state is \<^verbatim>\<open>chunks\<close>, \<^verbatim>\<open>sentence_buf\<close> and \<^verbatim>\<open>sentence_size\<close>.
\<close>

fun pack_sentences ::
  "int \<Rightarrow> string list \<Rightarrow> string list \<Rightarrow> string list \<Rightarrow> nat
     \<Rightarrow> string list \<times> string list \<times> nat" where
  "pack_sentences mx [] chunks buf sz = (chunks, buf, sz)"
| "pack_sentences mx (sent # rest) chunks buf sz =
     (if int (sz + length sent) > mx \<and> buf \<noteq> []
      then pack_sentences mx rest (chunks @ [join '' '' buf]) [sent] (length sent)
      else pack_sentences mx rest chunks (buf @ [sent]) (sz + length sent))"

text \<open>
  The outer loop over the paragraphs. Its state is \<^verbatim>\<open>chunks\<close>,
  \<^verbatim>\<open>current_parts\<close> and \<^verbatim>\<open>current_size\<close>.
\<close>

fun pack_paragraphs ::
  "int \<Rightarrow> string list \<Rightarrow> string list \<Rightarrow> string list \<Rightarrow> nat
     \<Rightarrow> string list \<times> string list \<times> nat" where
  "pack_paragraphs mx [] chunks parts sz = (chunks, parts, sz)"
| "pack_paragraphs mx (para # ps) chunks parts sz =
     (if int (length para) > mx
      then
        (let (chunks1, parts1, sz1) =
               (if parts \<noteq> [] then (chunks @ [join [NL, NL] parts], [], 0)
                else (chunks, parts, sz));
             (chunks2, buf, ssz) = pack_sentences mx (split_sentences para) chunks1 [] 0;
             chunks3 = (if buf \<noteq> [] then chunks2 @ [join '' '' buf] else chunks2)
         in pack_paragraphs mx ps chunks3 parts1 sz1)
      else
        (let (chunks1, parts1, sz1) =
               (if int (sz + length para) > mx \<and> parts \<noteq> []
                then (chunks @ [join [NL, NL] parts], [], 0)
                else (chunks, parts, sz))
         in pack_paragraphs mx ps chunks1 (parts1 @ [para]) (sz1 + length para)))"

definition paragraphs_of :: "string \<Rightarrow> string list" where
  "paragraphs_of text =
     map strip (filter (\<lambda>p. strip p \<noteq> []) (split_blank_lines [] text))"

definition chunk_text :: "string \<Rightarrow> int \<Rightarrow> string list" where
  "chunk_text text max_chunk_size =
     (let paragraphs = paragraphs_of text
      in if paragraphs = []
         then (if strip text \<noteq> [] then [strip text] else [''''])
         else
           (let (chunks, parts, sz) = pack_paragraphs max_chunk_size paragraphs [] [] 0;
                chunks' = (if parts \<noteq> [] then chunks @ [join [NL, NL] parts] else chunks)
            in if chunks' \<noteq> [] then chunks' else [text]))"

definition DEFAULT_CHUNK_SIZE :: int where
  "DEFAULT_CHUNK_SIZE = 500"

subsection \<open>compute\_importance\<close>

definition compute_importance :: "string \<Rightarrow> real" where
  "compute_importance text =
     (let words = split (lower text)
      in if words = [] then 0
         else
           (let unique_ratio = real (length (remdups words)) / real (length words);
                length_score = min (real (length words) / 100) 1;
                structure_bonus = (if search_structure True text then 0.1 else 0);
                fact_bonus = (if list_ex is_digit text then 0.1 else 0);
                score = unique_ratio * 0.5 + length_score * 0.3 + structure_bonus + fact_bonus
            in min score 1))"

subsection \<open>deduplicate\_content\<close>

text \<open>
  \<^verbatim>\<open>min(xs, key=key)\<close> on a non-empty sequence: the first element whose key is
  least (a later element replaces the best one only when its key is strictly less).
\<close>

definition min_by :: "('a \<Rightarrow> real) \<Rightarrow> 'a \<Rightarrow> 'a list \<Rightarrow> 'a" where
  "min_by key x xs = fold (\<lambda>y best. if key y < key best then y else best) xs x"

definition SIMILARITY_THRESHOLD :: real where
  "SIMILARITY_THRESHOLD = fl 0.92"

definition deduplicate_content ::
  "string \<Rightarrow> string list \<Rightarrow> real list \<Rightarrow> real \<Rightarrow> bool \<times> nat option" where
  "deduplicate_content candidate existing_documents existing_distances threshold =
     (if existing_distances = [] then (False, None)
      else
        (let best_idx = min_by (\<lambda>i. existing_distances ! i) 0 [1..<length existing_distances];
             similarity = fl (1 - existing_distances ! best_idx)
         in (similarity \<ge> threshold, Some best_idx)))"

section \<open>The embedding index\<close>

text \<open>
  The vector database (a ChromaDB collection) is outside the program: it computes the
  embeddings and searches them. Nothing is assumed about it. Its state is the sequence
  of the writes it has received, and the \<open>world\<close> gives its answers as functions of
  that sequence: \<open>collection_count\<close> is \<^verbatim>\<open>collection.count()\<close>, and
  \<open>collection_query\<close> is \<^verbatim>\<open>collection.query(query_texts=[text], n_results=n)\<close>,
  which may raise. The world also holds the stream of identifiers that
  \<^verbatim>\<open>uuid.uuid4()\<close> draws and Python's \<^verbatim>\<open>float()\<close> on a string (\<open>None\<close> when it
  raises \<^verbatim>\<open>ValueError\<close>).
\<close>

datatype error = IndexError | ValueError | AttributeError | OverflowError | CollectionError

datatype meta_value = VFloat real | VInt int | VBool bool | VStr string

type_synonym metadata = "string \<rightharpoonup> meta_value"

datatype index_write =
    Add (w_id: string) (w_doc: string) (w_meta: "metadata option")
  | Update (w_id: string) (w_doc: string) (w_meta: "metadata option")

record query_result =
  ids :: "string list list"
  documents :: "string list list"
  metadatas :: "metadata option list list option"
  distances :: "real list list"

record world =
  collection_count :: "index_write list \<Rightarrow> nat"
  collection_query :: "index_write list \<Rightarrow> string \<Rightarrow> int \<Rightarrow> error + query_result"
  uuid4 :: "nat \<Rightarrow> string"
  float_of_str :: "string \<Rightarrow> real option"

text \<open>
  The state of a \<^verbatim>\<open>MemoryManager\<close>: the writes its collection has received, its
  \<^verbatim>\<open>similarity_threshold\<close>, and how many identifiers have been drawn.
\<close>

record state =
  history :: "index_write list"
  similarity_threshold :: real
  uuids_drawn :: nat

text \<open>\<^verbatim>\<open>xs[i]\<close> for \<open>i \<ge> 0\<close>\<close>

definition item :: "'a list \<Rightarrow> nat \<Rightarrow> error + 'a" where
  "item xs i = (if i < length xs then Inr (xs ! i) else Inl IndexError)"

text \<open>\<^verbatim>\<open>xs[:n]\<close>: a negative \<open>n\<close> counts from the end.\<close>

definition slice_to :: "int \<Rightarrow> 'a list \<Rightarrow> 'a list" where
  "slice_to n xs = (if 0 \<le> n then take (nat n) xs else take (length xs - nat (- n)) xs)"

text \<open>\<^verbatim>\<open>generate_id\<close> of intelligence.py\<close>

definition generate_id :: "world \<Rightarrow> state \<Rightarrow> string \<times> state" where
  "generate_id W st = (uuid4 W (uuids_drawn st), st\<lparr>uuids_drawn := Suc (uuids_drawn st)\<rparr>)"

subsection \<open>store.py: VectorStore\<close>

definition vs_count :: "world \<Rightarrow> state \<Rightarrow> nat" where
  "vs_count W st = collection_count W (history st)"

definition vs_add :: "string \<Rightarrow> string \<Rightarrow> metadata \<Rightarrow> state \<Rightarrow> state" where
  "vs_add i document meta st =
     st\<lparr>history := history st @ [Add i document (if meta = Map.empty then None else Some meta)]\<rparr>"

definition vs_update :: "string \<Rightarrow> string \<Rightarrow> metadata \<Rightarrow> state \<Rightarrow> state" where
  "vs_update i document meta st =
     st\<lparr>history := history st @ [Update i document (if meta = Map.empty then None else Some meta)]\<rparr>"

definition vs_query :: "world \<Rightarrow> state \<Rightarrow> string \<Rightarrow> int \<Rightarrow> error + query_result" where
  "vs_query W st query_text n_results =
     (let n = min n_results (int (vs_count W st))
      in if n = 0
         then Inr \<lparr>ids = [[]], documents = [[]], metadatas = Some [[]], distances = [[]]\<rparr>
         else collection_query W (history st) query_text n)"

section \<open>memory.py: MemoryManager\<close>

subsection \<open>\_store\_with\_dedup\<close>

definition store_with_dedup ::
  "world \<Rightarrow> string \<Rightarrow> metadata \<Rightarrow> state \<Rightarrow> error + (string \<times> state)" where
  "store_with_dedup W content meta st =
     (if vs_count W st = 0
      then (let (new_id, st1) = generate_id W st in Inr (new_id, vs_add new_id content meta st1))
      else
        (case vs_query W st content 1 of
           Inl e \<Rightarrow> Inl e
         | Inr results \<Rightarrow>
             (let dists = (case distances results of [] \<Rightarrow> [] | d # _ \<Rightarrow> d);
                  docs = (case documents results of [] \<Rightarrow> [] | d # _ \<Rightarrow> d)
              in case deduplicate_content content docs dists (similarity_threshold st) of
                   (True, Some best_idx) \<Rightarrow>
                     (case item (ids results) 0 of
                        Inl e \<Rightarrow> Inl e
                      | Inr ids0 \<Rightarrow>
                     (case item ids0 best_idx of
                        Inl e \<Rightarrow> Inl e
                      | Inr existing_id \<Rightarrow>
                     (case item (documents results) 0 of
                        Inl e \<Rightarrow> Inl e
                      | Inr docs0 \<Rightarrow>
                     (case item docs0 best_idx of
                        Inl e \<Rightarrow> Inl e
                      | Inr existing_doc \<Rightarrow>
                          (let merged = (if length content \<ge> length existing_doc
                                         then content else existing_doc)
                           in Inr (existing_id, vs_update existing_id merged meta st))))))
                 | _ \<Rightarrow>
                     (let (new_id, st1) = generate_id W st
                      in Inr (new_id, vs_add new_id content meta st1)))))"

subsection \<open>store\<close>

text \<open>
  \<open>now\<close> is the value of \<^verbatim>\<open>time.time()\<close>. An absent \<^verbatim>\<open>metadata\<close> or
  \<^verbatim>\<open>session_id\<close> is \<open>None\<close>.
\<close>

definition base_meta :: "real \<Rightarrow> string option \<Rightarrow> string \<Rightarrow> metadata option \<Rightarrow> metadata" where
  "base_meta now session_id content caller =
     (let base = [''timestamp'' \<mapsto> VFloat now,
                  ''session_id'' \<mapsto>
                     VStr (case session_id of
                             None \<Rightarrow> ''unknown''
                           | Some s \<Rightarrow> if s = [] then ''unknown'' else s),
                  ''importance'' \<mapsto> VFloat (compute_importance content)]
      in case caller of
           None \<Rightarrow> base
         | Some m \<Rightarrow> if m = Map.empty then base else base ++ m)"

definition chunk_meta :: "metadata \<Rightarrow> string \<Rightarrow> metadata" where
  "chunk_meta base chunk = base(''importance'' \<mapsto> VFloat (compute_importance chunk))"

definition chunks_of :: "string \<Rightarrow> bool \<Rightarrow> string list" where
  "chunks_of content auto_chunk =
     (if auto_chunk \<and> length content > 500 then chunk_text content DEFAULT_CHUNK_SIZE
      else [content])"

text \<open>The loop of \<^verbatim>\<open>store\<close> over the chunks; \<open>stored_ids\<close> is the list it appends to.\<close>

fun store_chunks ::
  "world \<Rightarrow> metadata \<Rightarrow> string list \<Rightarrow> string list \<Rightarrow> state
     \<Rightarrow> error + (string list \<times> state)" where
  "store_chunks W base [] stored_ids st = Inr (stored_ids, st)"
| "store_chunks W base (chunk # rest) stored_ids st =
     (case store_with_dedup W chunk (chunk_meta base chunk) st of
        Inl e \<Rightarrow> Inl e
      | Inr (mem_id, st1) \<Rightarrow> store_chunks W base rest (stored_ids @ [mem_id]) st1)"

definition store ::
  "world \<Rightarrow> real \<Rightarrow> string \<Rightarrow> metadata option \<Rightarrow> string option \<Rightarrow> bool \<Rightarrow> state
     \<Rightarrow> error + (string list \<times> state)" where
  "store W now content caller session_id auto_chunk st =
     store_chunks W (base_meta now session_id content caller)
       (chunks_of content auto_chunk) [] st"

subsection \<open>retrieve\<close>

record memory =
  mem_id :: string
  mem_content :: string
  mem_metadata :: metadata
  mem_similarity :: real

text \<open>
  \<^verbatim>\<open>float(meta.get("importance", 0.0))\<close>. An \<^verbatim>\<open>int\<close> is rounded to the nearest
  double, and \<^verbatim>\<open>OverflowError\<close> is raised when it is too large for one.
\<close>

definition py_float :: "world \<Rightarrow> meta_value \<Rightarrow> error + real" where
  "py_float W v =
     (case v of
        VFloat r \<Rightarrow> Inr r
      | VInt i \<Rightarrow>
          (let r = nearest (real_of_int i)
           in if overflows r then Inl OverflowError else Inr r)
      | VBool b \<Rightarrow> Inr (if b then 1 else 0)
      | VStr s \<Rightarrow> (case float_of_str W s of None \<Rightarrow> Inl ValueError | Some r \<Rightarrow> Inr r))"

definition importance_of :: "world \<Rightarrow> metadata \<Rightarrow> error + real" where
  "importance_of W meta =
     (case meta ''importance'' of None \<Rightarrow> Inr 0 | Some v \<Rightarrow> py_float W v)"

text \<open>
  The loop of \<^verbatim>\<open>retrieve\<close> over \<^verbatim>\<open>enumerate(docs)\<close>, from index \<open>i\<close> on;
  \<open>memories\<close> is the list it appends to.
\<close>

fun collect ::
  "world \<Rightarrow> real \<Rightarrow> string list \<Rightarrow> metadata option list \<Rightarrow> real list \<Rightarrow> nat
     \<Rightarrow> string list \<Rightarrow> memory list \<Rightarrow> error + memory list" where
  "collect W min_importance ids0 metas0 dists0 i [] memories = Inr memories"
| "collect W min_importance ids0 metas0 dists0 i (doc # rest) memories =
     (case item metas0 i of
        Inl e \<Rightarrow> Inl e
      | Inr None \<Rightarrow> Inl AttributeError
      | Inr (Some meta) \<Rightarrow>
     (case importance_of W meta of
        Inl e \<Rightarrow> Inl e
      | Inr importance \<Rightarrow>
          if importance < min_importance
          then collect W min_importance ids0 metas0 dists0 (Suc i) rest memories
          else
     (case item dists0 i of
        Inl e \<Rightarrow> Inl e
      | Inr d \<Rightarrow>
     (case item ids0 i of
        Inl e \<Rightarrow> Inl e
      | Inr mid \<Rightarrow>
          collect W min_importance ids0 metas0 dists0 (Suc i) rest
            (memories @ [\<lparr>mem_id = mid, mem_content = doc, mem_metadata = meta,
                          mem_similarity = fl (1 - d)\<rparr>])))))"

text \<open>
  The sort key of the re-ranking,
  \<^verbatim>\<open>m["similarity"] * 0.7 + float(m["metadata"].get("importance", 0.0)) * 0.3\<close>: two
  products and a sum, each rounded; the constants are the doubles nearest to 7/10 and
  3/10. The conversion cannot raise there: it has succeeded in the loop for every
  memory that is sorted.
\<close>

definition blended :: "world \<Rightarrow> memory \<Rightarrow> real" where
  "blended W m =
     fl (fl (mem_similarity m * fl 0.7)
         + fl ((case importance_of W (mem_metadata m) of Inr r \<Rightarrow> r | Inl _ \<Rightarrow> 0) * fl 0.3))"

text \<open>
  \<^verbatim>\<open>xs.sort(key=key, reverse=True)\<close>: CPython reverses the list, sorts it stably in
  ascending order and reverses the result.
\<close>

definition sort_reverse :: "('a \<Rightarrow> real) \<Rightarrow> 'a list \<Rightarrow> 'a list" where
  "sort_reverse key xs = rev (sort_key key (rev xs))"

text \<open>
  The body of \<^verbatim>\<open>retrieve\<close> after the query. An absent or empty
  \<^verbatim>\<open>metadatas\<close> is replaced by one empty dict per document. The list
  \<^verbatim>\<open>metadatas[0]\<close> is read inside the loop of the source and before it here, where it
  cannot fail: the outer list is never empty. The test
  \<^verbatim>\<open>isinstance(metadatas[0], list)\<close> holds of every value of the type; an entry
  returned without metadata is \<open>None\<close>, and reading it raises.
\<close>

definition rerank :: "world \<Rightarrow> query_result \<Rightarrow> int \<Rightarrow> real \<Rightarrow> error + memory list" where
  "rerank W results n_results min_importance =
     (case item (documents results) 0 of
        Inl e \<Rightarrow> Inl e
      | Inr docs \<Rightarrow>
     (case item (ids results) 0 of
        Inl e \<Rightarrow> Inl e
      | Inr ids0 \<Rightarrow>
     (let metas = (case metadatas results of
                     None \<Rightarrow> [replicate (length docs) (Some Map.empty)]
                   | Some [] \<Rightarrow> [replicate (length docs) (Some Map.empty)]
                   | Some ms \<Rightarrow> ms)
      in
     (case item (distances results) 0 of
        Inl e \<Rightarrow> Inl e
      | Inr dists0 \<Rightarrow>
     (case item metas 0 of
        Inl e \<Rightarrow> Inl e
      | Inr metas0 \<Rightarrow>
     (case collect W min_importance ids0 metas0 dists0 0 docs [] of
        Inl e \<Rightarrow> Inl e
      | Inr memories \<Rightarrow> Inr (slice_to n_results (sort_reverse (blended W) memories))))))))"

definition retrieve :: "world \<Rightarrow> string \<Rightarrow> int \<Rightarrow> real \<Rightarrow> state \<Rightarrow> error + memory list" where
  "retrieve W query n_results min_importance st =
     (if vs_count W st = 0 then Inr []
      else
        (let fetch_n = min (n_results * 3) (int (vs_count W st))
         in case vs_query W st query fetch_n of
              Inl e \<Rightarrow> Inl e
            | Inr results \<Rightarrow> rerank W results n_results min_importance))"

section \<open>An index to run the model on\<close>

text \<open>
  What the contract of the collection promises of an answer to one query text: one
  list of ids, one of documents and one of distances, of the same length.
\<close>

definition parallel_lists :: "query_result \<Rightarrow> bool" where
  "parallel_lists r =
     (length (ids r) = 1 \<and> length (documents r) = 1 \<and> length (distances r) = 1 \<and>
      length (ids r ! 0) = length (documents r ! 0) \<and>
      length (documents r ! 0) = length (distances r ! 0))"

text \<open>
  An example of a world, for the concrete runs below: its collection holds as many
  entries as it has received \<open>Add\<close> writes and answers every query with \<open>r\<close>; the
  identifiers drawn are \<^verbatim>\<open>id-\<close>, \<^verbatim>\<open>id-i\<close>, \<^verbatim>\<open>id-ii\<close> and so on; no
  string converts to a float.
\<close>

definition example_world :: "query_result \<Rightarrow> world" where
  "example_world r =
     \<lparr>collection_count =
        (\<lambda>h. length (filter (\<lambda>w. case w of Add _ _ _ \<Rightarrow> True | Update _ _ _ \<Rightarrow> False) h)),
      collection_query = (\<lambda>h q n. Inr r),
      uuid4 = (\<lambda>k. ''id-'' @ replicate k (CHR ''i'')),
      float_of_str = (\<lambda>s. None)\<rparr>"

text \<open>
  An answer that \<^verbatim>\<open>retrieve\<close> can read: parallel lists and, when metadata comes with
  it, one dict per document whose \<^verbatim>\<open>importance\<close>, if present, converts to a float.
\<close>

definition readable :: "world \<Rightarrow> query_result \<Rightarrow> bool" where
  "readable W r =
     (parallel_lists r \<and>
      (case metadatas r of
         None \<Rightarrow> True
       | Some [] \<Rightarrow> True
       | Some (metas0 # _) \<Rightarrow>
           length metas0 = length (documents r ! 0) \<and>
           list_all (\<lambda>x. case x of
                            None \<Rightarrow> False
                          | Some meta \<Rightarrow> (case importance_of W meta of
                                           Inr _ \<Rightarrow> True | Inl _ \<Rightarrow> False)) metas0))"

section \<open>Double arithmetic: the rounding\<close>

text \<open>
  What makes \<open>nearest\<close> the rounding to the nearest double: \<open>ilog2\<close> is the binary
  exponent, and the value returned is an integer multiple of the spacing that lies
  within half a spacing of the argument.
\<close>

lemma bit_length_bounds:
  "0 < n \<Longrightarrow> 2 ^ (bit_length n - 1) \<le> n \<and> n < 2 ^ bit_length n"
proof (induction n rule: bit_length.induct)
  case (1 n)
  show ?case
  proof (cases "n div 2 = 0")
    case True
    with 1(2) have n: "n = Suc 0" by (simp add: div_eq_0_iff)
    have "bit_length (Suc 0) = Suc 0"
      by (simp add: bit_length.simps [of "Suc 0"] bit_length.simps [of 0])
    with n show ?thesis by simp
  next
    case False
    then have pos: "0 < n div 2" by simp
    with 1 have ih: "2 ^ (bit_length (n div 2) - 1) \<le> n div 2" "n div 2 < 2 ^ bit_length (n div 2)"
      by simp_all
    have bl: "bit_length n = Suc (bit_length (n div 2))"
      using 1(2) by (simp add: bit_length.simps [of n])
    have bp: "0 < bit_length (n div 2)" using pos by (simp add: bit_length.simps [of "n div 2"])
    have "2 ^ (bit_length n - 1) = 2 * 2 ^ (bit_length (n div 2) - 1)"
      using bl bp by (cases "bit_length (n div 2)") simp_all
    also have "\<dots> \<le> 2 * (n div 2)" using ih(1) by simp
    also have "\<dots> \<le> n" by simp
    finally have lo: "2 ^ (bit_length n - 1) \<le> n" .
    have "n < 2 * (n div 2) + 2" by presburger
    also have "\<dots> \<le> 2 * 2 ^ bit_length (n div 2)" using ih(2) by simp
    finally have "n < 2 ^ bit_length n" using bl by simp
    with lo show ?thesis by simp
  qed
qed

lemma round_half_even_near: "\<bar>of_int (round_half_even m) - m\<bar> \<le> 1 / 2"
  unfolding round_half_even_def Let_def by (auto simp: abs_if) linarith+


lemma bit_length_floor:
  assumes "1 \<le> (y :: real)"
  shows "\<exists>k. bit_length (nat \<lfloor>y\<rfloor>) = Suc k \<and> 2 ^ k \<le> y \<and> y < 2 ^ Suc k"
proof -
  let ?n = "nat \<lfloor>y\<rfloor>"
  have n: "0 < ?n" using assms by simp
  have fl: "real ?n \<le> y" "y < real ?n + 1" using assms by linarith+
  obtain k where k: "bit_length ?n = Suc k"
    using n by (simp add: bit_length.simps [of ?n])
  from bit_length_bounds [OF n] k have b: "2 ^ k \<le> ?n" "?n < 2 ^ Suc k" by simp_all
  from b(1) have r1: "real (2 ^ k) \<le> real ?n" by (rule of_nat_mono)
  have "(2::real) ^ k = real (2 ^ k)" by simp
  also note r1
  also note fl(1)
  finally have lo: "(2::real) ^ k \<le> y" .
  from b(2) have "Suc ?n \<le> 2 ^ Suc k" by simp
  then have r2: "real (Suc ?n) \<le> real (2 ^ Suc k)" by (rule of_nat_mono)
  have r3: "real ?n + 1 = real (Suc ?n)" by simp
  have r4: "real (2 ^ Suc k) = (2::real) ^ Suc k" by simp
  note fl(2)
  also note r3
  also note r2
  also note r4
  finally have hi: "y < (2::real) ^ Suc k" .
  from k lo hi show ?thesis by blast
qed

lemma ilog2_bounds:
  assumes "0 < x"
  shows "2 powi ilog2 x \<le> x \<and> x < 2 powi (ilog2 x + 1)"
proof (cases "1 \<le> x")
  case True
  from bit_length_floor [OF True] obtain k where
    k: "bit_length (nat \<lfloor>x\<rfloor>) = Suc k" "2 ^ k \<le> x" "x < 2 ^ Suc k" by blast
  have e: "ilog2 x = int k" using True k(1) by (simp add: ilog2_def)
  have p1: "(2::real) powi int k = 2 ^ k" by simp
  have p2: "(2::real) powi (int k + 1) = 2 ^ Suc k"
    using power_int_of_nat [of "2::real" "Suc k"] by (simp add: add.commute)
  from k(2,3) p1 p2 e show ?thesis by simp
next
  case False
  with assms have y: "1 \<le> 1 / x" by simp
  from bit_length_floor [OF y] obtain k where
    k: "bit_length (nat \<lfloor>1 / x\<rfloor>) = Suc k" "2 ^ k \<le> 1 / x" "1 / x < 2 ^ Suc k" by blast
  have up: "x \<le> 1 / 2 ^ k"
    using k(2) assms by (simp add: field_simps)
  have lo: "1 / 2 ^ Suc k < x"
    using k(3) assms by (simp add: field_simps)
  have m1: "(2::real) powi (- int k) = 1 / 2 ^ k"
    by (simp add: power_int_minus field_simps)
  have m2: "(2::real) powi (- int k - 1) = 1 / 2 ^ Suc k"
  proof -
    have "- int k - 1 = - int (Suc k)" by simp
    then have "(2::real) powi (- int k - 1) = 2 powi (- int (Suc k))" by (simp only:)
    also have "\<dots> = inverse (2 powi int (Suc k))" by (rule power_int_minus)
    also have "\<dots> = inverse (2 ^ Suc k)" by (simp only: power_int_of_nat)
    also have "\<dots> = 1 / 2 ^ Suc k" by (rule inverse_eq_divide)
    finally show ?thesis .
  qed
  show ?thesis
  proof (cases "1 / x = 2 ^ k")
    case True
    then have e: "ilog2 x = - int k" using False k(1) by (simp add: ilog2_def Let_def)
    from True assms have xe: "x = 1 / 2 ^ k" by (simp add: field_simps)
    have m3: "(2::real) powi (- int k + 1) = 2 * (1 / 2 ^ k)"
      using power_int_add [of "2::real" "- int k" 1] m1 by simp
    have a1: "(2::real) powi ilog2 x = 1 / 2 ^ k" by (simp only: e m1)
    have a2: "(2::real) powi (ilog2 x + 1) = 2 * (1 / 2 ^ k)" by (simp only: e m3)
    from xe [symmetric] have "1 / 2 ^ k \<le> x" by (rule eq_refl)
    then have lo': "2 powi ilog2 x \<le> x" by (simp only: a1)
    from xe have a3: "2 * x = 2 * (1 / 2 ^ k)" by (rule arg_cong)
    have "x < 2 * x" using assms by linarith
    then have "x < 2 powi (ilog2 x + 1)" by (simp only: a2 a3)
    with lo' show ?thesis by (rule conjI)
  next
    case ne: False
    then have e: "ilog2 x = - int k - 1" using False k(1) by (simp add: ilog2_def Let_def)
    have "x \<noteq> 1 / 2 ^ k"
    proof
      assume "x = 1 / 2 ^ k"
      then have "1 / x = 2 ^ k" by simp
      with ne show False by simp
    qed
    with up have up': "x < 1 / 2 ^ k" by simp
    have e1: "ilog2 x + 1 = - int k" using e by simp
    have "(2::real) powi ilog2 x \<le> x" unfolding e m2 using lo by (rule less_imp_le)
    moreover have "x < (2::real) powi (ilog2 x + 1)" unfolding e1 m1 by (rule up')
    ultimately show ?thesis by (rule conjI)
  qed
qed

lemma nearest_near:
  assumes "x \<noteq> 0"
  shows "\<exists>q. nearest x = of_int q * 2 powi (max (ilog2 \<bar>x\<bar>) (- 1022) - 52) \<and>
             \<bar>nearest x - x\<bar> \<le> 2 powi (max (ilog2 \<bar>x\<bar>) (- 1022) - 52) / 2"
proof -
  let ?u = "(2::real) powi (max (ilog2 \<bar>x\<bar>) (- 1022) - 52)"
  let ?q = "round_half_even (x / ?u)"
  have u: "0 < ?u" by simp
  have n: "nearest x = of_int ?q * ?u" using assms by (simp add: nearest_def Let_def)
  have "\<bar>of_int ?q * ?u - x\<bar> = \<bar>of_int ?q - x / ?u\<bar> * ?u"
  proof -
    have "of_int ?q * ?u - x = (of_int ?q - x / ?u) * ?u" using u by (simp add: field_simps)
    then show ?thesis using u by (simp only: abs_mult abs_of_pos)
  qed
  also have "\<dots> \<le> (1 / 2) * ?u"
    using round_half_even_near [of "x / ?u"] u by (rule mult_right_mono [OF _ less_imp_le])
  finally have "\<bar>nearest x - x\<bar> \<le> ?u / 2" using n by simp
  with n show ?thesis by blast
qed


section \<open>Duplicate detection\<close>

lemma min_by_snoc:
  "min_by key x (xs @ [a]) = (if key a < key (min_by key x xs) then a else min_by key x xs)"
  by (simp add: min_by_def)

lemma min_by_mem: "min_by key x xs \<in> set (x # xs)"
  by (induction xs rule: rev_induct) (auto simp: min_by_snoc min_by_def)

lemma min_by_le: "y \<in> set (x # xs) \<Longrightarrow> key (min_by key x xs) \<le> key y"
proof (induction xs rule: rev_induct)
  case Nil
  then show ?case by (simp add: min_by_def)
next
  case (snoc a xs)
  then show ?case by (auto simp: min_by_snoc)
qed

lemma min_by_first:
  fixes x :: nat
  shows "sorted_wrt (<) (x # xs) \<Longrightarrow> y \<in> set (x # xs) \<Longrightarrow> y < min_by key x xs
     \<Longrightarrow> key (min_by key x xs) < key y"
proof (induction xs rule: rev_induct)
  case Nil
  then show ?case by (simp add: min_by_def)
next
  case (snoc a xs)
  have srt: "sorted_wrt (<) (x # xs)" and a_top: "\<forall>z \<in> set (x # xs). z < a"
    using snoc.prems(1) by (auto simp: sorted_wrt_append)
  show ?case
  proof (cases "key a < key (min_by key x xs)")
    case True
    then have r: "min_by key x (xs @ [a]) = a" by (simp add: min_by_snoc)
    from snoc.prems(2,3) r have "y \<in> set (x # xs)" by auto
    then have "key (min_by key x xs) \<le> key y" by (rule min_by_le)
    with True r show ?thesis by simp
  next
    case False
    then have r: "min_by key x (xs @ [a]) = min_by key x xs" by (simp add: min_by_snoc)
    have "min_by key x xs \<in> set (x # xs)" by (rule min_by_mem)
    with a_top have "min_by key x xs < a" by blast
    with snoc.prems(2,3) r have "y \<in> set (x # xs)" by auto
    with snoc.IH srt snoc.prems(3) r show ?thesis by simp
  qed
qed


lemma index_set: "ds \<noteq> [] \<Longrightarrow> set (0 # [1..<length ds]) = {..<length ds}"
  by (cases ds) auto

lemma best_idx_lt:
  "ds \<noteq> [] \<Longrightarrow> min_by key 0 [1..<length ds] < length ds"
  using min_by_mem [of key 0 "[1..<length ds]"] index_set [of ds] by blast

lemma best_idx_le:
  assumes "ds \<noteq> []" "j < length ds"
  shows "key (min_by key 0 [1..<length ds]) \<le> key j"
proof -
  have "j \<in> set (0 # [1..<length ds])" using assms index_set [of ds] by blast
  then show ?thesis by (rule min_by_le)
qed

lemma best_idx_first:
  assumes "ds \<noteq> []" "j < min_by key 0 [1..<length ds]"
  shows "key (min_by key 0 [1..<length ds]) < key j"
proof -
  have "j < length ds" using assms best_idx_lt [of ds key] by simp
  then have m: "j \<in> set (0 # [1..<length ds])" using assms index_set [of ds] by blast
  have srt: "sorted_wrt (<) (0 # [1..<length ds])" by (simp add: sorted_wrt_upt)
  from min_by_first [OF srt m assms(2)] show ?thesis .
qed

lemma best_idx_Min:
  fixes ds :: "real list"
  assumes "ds \<noteq> []"
  shows "ds ! min_by (\<lambda>i. ds ! i) 0 [1..<length ds] = Min (set ds)"
proof -
  let ?i = "min_by (\<lambda>i. ds ! i) 0 [1..<length ds]"
  have lt: "?i < length ds" using assms by (rule best_idx_lt)
  have "Min (set ds) = ds ! ?i"
  proof (rule Min_eqI)
    show "finite (set ds)" by simp
    show "ds ! ?i \<in> set ds" using lt by simp
    fix y assume "y \<in> set ds"
    then obtain j where j: "j < length ds" "y = ds ! j" by (auto simp: in_set_conv_nth)
    from best_idx_le [OF assms j(1), of "\<lambda>i. ds ! i"] j(2) show "ds ! ?i \<le> y" by simp
  qed
  then show ?thesis by simp
qed

lemma fl_three_quarters: "fl (3 / 4) = 3 / 4"
  by code_simp

lemma dedup_three_candidates:
  "deduplicate_content c docs [1 / 2, 1 / 4, 1 / 4] (3 / 4) = (True, Some 1)"
  by code_simp

text \<open>
  C3, as stated, fails on doubles. With the distance \<open>2 ^ (- 60)\<close> and the threshold 1
  the verdict is a duplicate although \<open>1 - distance\<close> is below the threshold: the
  subtraction rounds to 1. With the threshold 0.1 and the distance that
  \<^verbatim>\<open>1.0 - threshold\<close> computes, which is the double 0.9, the verdict is no duplicate:
  the similarity computed is 0.09999999999999998.
\<close>

theorem deduplicate_content_boundary_counterexample:
  "deduplicate_content ''text'' [''x''] [1 / 2 ^ 60] 1 = (True, Some 0) \<and>
   \<not> (1 - 1 / 2 ^ 60 \<ge> (1 :: real)) \<and>
   fl (1 / 10) = 3602879701896397 / 2 ^ 55 \<and>
   fl (1 - fl (1 / 10)) = 8106479329266893 / 2 ^ 53 \<and>
   fl (1 - fl (1 - fl (1 / 10))) = 900719925474099 / 2 ^ 53 \<and>
   deduplicate_content ''text'' [''x''] [fl (1 - fl (1 / 10))] (fl (1 / 10)) = (False, Some 0)"
  by code_simp

text \<open>
  C3, amended. With no distances \<^verbatim>\<open>deduplicate_content\<close> returns \<open>(False, None)\<close>.
  Otherwise it returns the index of the least distance, the first one on ties,
  whatever the verdict; the verdict is that the similarity computed in double
  arithmetic, \<open>1 - least distance\<close> rounded to the nearest double, is at least the
  threshold. The boundary is inclusive: a computed similarity equal to the threshold is
  a duplicate, and so is a least distance that is exactly \<open>1 - threshold\<close> as a real
  number, the threshold being a double.
\<close>

theorem deduplicate_content_nearest:
  "(ds = [] \<longrightarrow> deduplicate_content c docs ds t = (False, None)) \<and>
   (ds \<noteq> [] \<longrightarrow>
      (\<exists>i. deduplicate_content c docs ds t = (fl (1 - Min (set ds)) \<ge> t, Some i)
           \<and> i < length ds \<and> ds ! i = Min (set ds) \<and> (\<forall>j<i. ds ! i < ds ! j))
      \<and> (fl (1 - Min (set ds)) = t \<longrightarrow> fst (deduplicate_content c docs ds t))
      \<and> (Min (set ds) = 1 - t \<and> fl t = t \<longrightarrow> fst (deduplicate_content c docs ds t)))"
proof (cases "ds = []")
  case True
  then show ?thesis by (simp add: deduplicate_content_def)
next
  case False
  let ?i = "min_by (\<lambda>i. ds ! i) 0 [1..<length ds]"
  have m: "ds ! ?i = Min (set ds)" using False by (rule best_idx_Min)
  have e: "deduplicate_content c docs ds t = (fl (1 - Min (set ds)) \<ge> t, Some ?i)"
    using False m by (simp add: deduplicate_content_def Let_def)
  have lt: "?i < length ds" using False by (rule best_idx_lt)
  have first: "\<forall>j<?i. ds ! ?i < ds ! j"
    using best_idx_first [OF False, of _ "\<lambda>i. ds ! i"] by blast
  have bnd: "fl (1 - Min (set ds)) = t \<longrightarrow> fst (deduplicate_content c docs ds t)"
    by (simp add: e)
  have exact: "Min (set ds) = 1 - t \<and> fl t = t \<longrightarrow> fst (deduplicate_content c docs ds t)"
    by (simp add: e)
  from e lt m first have
    "\<exists>i. deduplicate_content c docs ds t = (fl (1 - Min (set ds)) \<ge> t, Some i)
           \<and> i < length ds \<and> ds ! i = Min (set ds) \<and> (\<forall>j<i. ds ! i < ds ! j)"
    by blast
  with bnd exact False show ?thesis by blast
qed

theorem deduplicate_content_nearest_witness:
  "[1 / 2, 1 / 4, 1 / 4] \<noteq> ([] :: real list) \<and>
   Min (set [1 / 2, 1 / 4, 1 / 4 :: real]) = 1 - 3 / 4 \<and> fl (3 / 4) = 3 / 4 \<and>
   deduplicate_content ''text'' [''a'', ''b'', ''c''] [1 / 2, 1 / 4, 1 / 4] (3 / 4) = (True, Some 1) \<and>
   deduplicate_content ''text'' [] [] (3 / 4) = (False, None)"
proof -
  have m: "Min (set [1 / 2, 1 / 4, 1 / 4 :: real]) = 1 - 3 / 4" by simp
  note t = deduplicate_content_nearest [of "[1 / 2, 1 / 4, 1 / 4]" "''text''" "[''a'', ''b'', ''c'']" "3 / 4"]
  from t m fl_three_quarters
  have b: "fst (deduplicate_content ''text'' [''a'', ''b'', ''c''] [1 / 2, 1 / 4, 1 / 4] (3 / 4))"
    by blast
  have e: "deduplicate_content ''text'' [''a'', ''b'', ''c''] [1 / 2, 1 / 4, 1 / 4] (3 / 4) = (True, Some 1)"
    by (rule dedup_three_candidates)
  from deduplicate_content_nearest [of "[]" "''text''" "[]" "3 / 4"]
  have n: "deduplicate_content ''text'' [] [] (3 / 4) = (False, None)" by blast
  from b e n m fl_three_quarters show ?thesis by simp
qed

text \<open>
  C9. The result of \<^verbatim>\<open>deduplicate_content\<close> depends on the distances and the
  threshold only: two calls that differ in the candidate text and in the documents
  return the same pair.
\<close>

theorem deduplicate_content_ignores_texts:
  "deduplicate_content c1 docs1 ds t = deduplicate_content c2 docs2 ds t"
  by (simp add: deduplicate_content_def)

section \<open>Importance scoring\<close>

lemma lower_char_space: "is_space c \<Longrightarrow> lower_char c = c"
  by (auto simp: is_space_def lower_char_def Let_def)

lemma lower_all_space: "list_all is_space s \<Longrightarrow> lower s = s"
  by (induction s) (simp_all add: lower_def lower_char_space)

lemma split_words_all_space: "list_all is_space s \<Longrightarrow> split_words [] s = []"
  by (induction s) simp_all

lemma compute_importance_blank: "list_all is_space text \<Longrightarrow> compute_importance text = 0"
  by (simp add: compute_importance_def split_def lower_all_space split_words_all_space)

lemma compute_importance_le: "compute_importance text \<le> 1"
  by (simp add: compute_importance_def Let_def)

lemma compute_importance_ge: "0 \<le> compute_importance text"
  by (simp add: compute_importance_def Let_def)

text \<open>
  C5. \<^verbatim>\<open>compute_importance\<close> returns a value between 0 and 1 for every text, and
  exactly 0 for a text that is empty or holds whitespace only.
\<close>

theorem compute_importance_unit_interval:
  "0 \<le> compute_importance text \<and> compute_importance text \<le> 1 \<and>
   (list_all is_space text \<longrightarrow> compute_importance text = 0)"
  using compute_importance_ge compute_importance_le compute_importance_blank by blast

theorem compute_importance_unit_interval_witness:
  "list_all is_space '' \<newline> '' \<and> compute_importance '' \<newline> '' = 0 \<and>
   compute_importance '''' = 0"
proof -
  have h: "list_all is_space '' \<newline> ''" by (simp add: is_space_def)
  from compute_importance_unit_interval [of "'' \<newline> ''"]
       compute_importance_unit_interval [of "''''"] h
  show ?thesis by simp
qed

section \<open>Chunking\<close>


text \<open>
  C2. The claim is that no chunk is longer than \<^verbatim>\<open>max_chunk_size\<close> unless a single
  sentence or paragraph is. The code runs against it: with a limit of 10 the two
  paragraphs \<^verbatim>\<open>Hello\<close> and \<^verbatim>\<open>world\<close>, of 5 characters each, are packed into
  one chunk of 12 characters, because \<^verbatim>\<open>current_size\<close> does not count the
  separator that \<^verbatim>\<open>join\<close> inserts.
\<close>

theorem chunk_text_exceeds_limit:
  "chunk_text ''Hello\<newline>\<newline>world'' 10 = [''Hello\<newline>\<newline>world''] \<and>
   paragraphs_of ''Hello\<newline>\<newline>world'' = [''Hello'', ''world''] \<and>
   length ''Hello\<newline>\<newline>world'' = 12"
  by code_simp

text \<open>
  C8, as stated, fails: a short text is not always returned as it is, since every
  paragraph is stripped. Here the final line feed is lost.
\<close>

theorem chunk_text_short_counterexample:
  "\<not> (int (length ''Hello world.\<newline>'') \<le> 500 \<longrightarrow>
        chunk_text ''Hello world.\<newline>'' 500 = [''Hello world.\<newline>''])"
  by code_simp

lemma length_strip_le: "length (strip s) \<le> length s"
proof -
  have "length (strip s) \<le> length (dropWhile is_space s)"
    unfolding strip_def using length_dropWhile_le [of is_space "rev (dropWhile is_space s)"] by simp
  also have "\<dots> \<le> length s" by (rule length_dropWhile_le)
  finally show ?thesis .
qed

lemma blank_line_end_le: "blank_line_end cs = Some k \<Longrightarrow> k \<le> length cs"
proof -
  assume "blank_line_end cs = Some k"
  then have "k \<le> length (takeWhile is_space cs)"
    by (auto simp: blank_line_end_def Let_def split: if_splits)
  also have "\<dots> \<le> length cs" by (rule length_takeWhile_le)
  finally show ?thesis .
qed

lemma sum_split_blank_lines:
  "sum_list (map length (split_blank_lines cur text)) \<le> length cur + length text"
proof (induction cur "text" rule: split_blank_lines.induct)
  case (1 cur)
  then show ?case by simp
next
  case (2 cur c cs)
  show ?case
  proof (cases "c = NL")
    case True
    show ?thesis
    proof (cases "blank_line_end cs")
      case None
      with True 2 show ?thesis by simp
    next
      case (Some k)
      with True 2 have "sum_list (map length (split_blank_lines [] (drop k cs))) \<le> length cs - k"
        by simp
      with True Some show ?thesis by simp
    qed
  next
    case False
    with 2 show ?thesis by simp
  qed
qed

lemma sum_map_strip_filter:
  "sum_list (map length (map strip (filter P xs))) \<le> sum_list (map length xs)"
proof (induction xs)
  case Nil
  then show ?case by simp
next
  case (Cons x xs)
  have "length (strip x) \<le> length x" by (rule length_strip_le)
  with Cons show ?case by simp
qed

lemma sum_paragraphs_le: "sum_list (map length (paragraphs_of text)) \<le> length text"
proof -
  have "sum_list (map length (paragraphs_of text))
          \<le> sum_list (map length (split_blank_lines [] text))"
    unfolding paragraphs_of_def by (rule sum_map_strip_filter)
  also have "\<dots> \<le> length text" using sum_split_blank_lines [of "[]" "text"] by simp
  finally show ?thesis .
qed

lemma pack_paragraphs_fit:
  "int (sz + sum_list (map length ps)) \<le> mx \<Longrightarrow>
   pack_paragraphs mx ps chunks parts sz = (chunks, parts @ ps, sz + sum_list (map length ps))"
proof (induction ps arbitrary: parts sz)
  case Nil
  then show ?case by simp
next
  case (Cons para ps)
  from Cons.prems have a: "\<not> int (length para) > mx" and b: "\<not> int (sz + length para) > mx"
    and c: "int ((sz + length para) + sum_list (map length ps)) \<le> mx"
    by simp_all
  from Cons.IH [OF c] a b show ?case by simp
qed

lemma dropWhile_Nil_iff: "dropWhile P xs = [] \<longleftrightarrow> (\<forall>x\<in>set xs. P x)"
  by (induction xs) auto

lemma strip_Nil_iff: "strip s = [] \<longleftrightarrow> (\<forall>c\<in>set s. is_space c)"
proof
  assume "strip s = []"
  then have a: "\<forall>c\<in>set (dropWhile is_space s). is_space c"
    by (simp add: strip_def dropWhile_Nil_iff)
  have "dropWhile is_space s = []"
  proof (cases "dropWhile is_space s")
    case Nil
    then show ?thesis .
  next
    case (Cons c cs)
    then have "\<not> is_space c" using hd_dropWhile [of is_space s] by simp
    with a Cons show ?thesis by simp
  qed
  then show "\<forall>c\<in>set s. is_space c" by (simp add: dropWhile_Nil_iff)
next
  assume "\<forall>c\<in>set s. is_space c"
  then show "strip s = []" by (auto simp: strip_def dest: set_dropWhileD)
qed

lemma blank_line_end_spaces:
  assumes "blank_line_end cs = Some k" "c \<in> set (take k cs)"
  shows "is_space c"
proof -
  from assms(1) have "k \<le> length (takeWhile is_space cs)"
    by (auto simp: blank_line_end_def Let_def split: if_splits)
  then have "take k cs = take k (takeWhile is_space cs)"
    by (metis takeWhile_dropWhile_id take_append diff_is_0_eq take_0 append_Nil2)
  with assms(2) have "c \<in> set (takeWhile is_space cs)" by (auto dest: in_set_takeD)
  then show ?thesis by (rule set_takeWhileD [THEN conjunct2])
qed

lemma split_blank_lines_covers:
  "c \<in> set cur \<union> set s \<Longrightarrow> \<not> is_space c \<Longrightarrow>
   \<exists>p \<in> set (split_blank_lines cur s). c \<in> set p"
proof (induction cur s rule: split_blank_lines.induct)
  case (1 cur)
  then show ?case by simp
next
  case (2 cur d cs)
  show ?case
  proof (cases "d = NL")
    case True
    then have dsp: "is_space d" by (simp add: is_space_def)
    show ?thesis
    proof (cases "blank_line_end cs")
      case None
      from 2(4,5) have "c \<in> set (d # cur) \<union> set cs" by auto
      with True None 2 show ?thesis by simp
    next
      case (Some k)
      from 2(4,5) dsp have "c \<in> set cur \<or> c \<in> set cs" by auto
      then show ?thesis
      proof
        assume "c \<in> set cur"
        with True Some show ?thesis by simp
      next
        assume "c \<in> set cs"
        then have "c \<in> set (take k cs) \<or> c \<in> set (drop k cs)"
          by (metis append_take_drop_id set_append Un_iff)
        with blank_line_end_spaces [OF Some] 2(5) have "c \<in> set [] \<union> set (drop k cs)" by auto
        with True Some 2 have "\<exists>p \<in> set (split_blank_lines [] (drop k cs)). c \<in> set p" by simp
        with True Some show ?thesis by simp
      qed
    qed
  next
    case False
    from 2(4,5) have "c \<in> set (d # cur) \<union> set cs" by auto
    with False 2 show ?thesis by simp
  qed
qed

lemma no_paragraphs_blank:
  assumes "paragraphs_of s = []"
  shows "strip s = []"
proof -
  from assms have all: "\<forall>p \<in> set (split_blank_lines [] s). strip p = []"
    by (simp add: paragraphs_of_def filter_empty_conv)
  have "is_space c" if "c \<in> set s" for c
  proof (rule ccontr)
    assume n: "\<not> is_space c"
    from that have "c \<in> set [] \<union> set s" by simp
    from split_blank_lines_covers [OF this n]
    obtain p where p: "p \<in> set (split_blank_lines [] s)" "c \<in> set p" by blast
    with all have "strip p = []" by blast
    with p(2) n show False by (simp add: strip_Nil_iff)
  qed
  then show ?thesis by (simp add: strip_Nil_iff)
qed

lemma chunk_text_fits:
  assumes "int (length s) \<le> mx"
  shows "chunk_text s mx = [join [NL, NL] (paragraphs_of s)]"
proof (cases "paragraphs_of s = []")
  case True
  then show ?thesis by (simp add: chunk_text_def no_paragraphs_blank)
next
  case False
  have "int (0 + sum_list (map length (paragraphs_of s))) \<le> mx"
    using sum_paragraphs_le [of s] assms by simp
  from pack_paragraphs_fit [OF this, of "[]" "[]"] False
  show ?thesis by (simp add: chunk_text_def)
qed

lemma split_blank_lines_none:
  "\<forall>i<length s. s ! i = NL \<longrightarrow> NL \<notin> set (takeWhile is_space (drop (Suc i) s)) \<Longrightarrow>
   split_blank_lines cur s = [rev cur @ s]"
proof (induction s arbitrary: cur)
  case Nil
  then show ?case by simp
next
  case (Cons c cs)
  have rest: "\<forall>i<length cs. cs ! i = NL \<longrightarrow> NL \<notin> set (takeWhile is_space (drop (Suc i) cs))"
  proof (intro allI impI)
    fix i assume "i < length cs" "cs ! i = NL"
    with Cons.prems [rule_format, of "Suc i"]
    show "NL \<notin> set (takeWhile is_space (drop (Suc i) cs))" by simp
  qed
  have hd: "c = NL \<Longrightarrow> blank_line_end cs = None"
    using Cons.prems [rule_format, of 0] by (simp add: blank_line_end_def)
  from Cons.IH [OF rest] hd show ?case by simp
qed

lemma paragraphs_of_plain:
  assumes "strip s = s"
    and "\<forall>i<length s. s ! i = NL \<longrightarrow> NL \<notin> set (takeWhile is_space (drop (Suc i) s))"
  shows "join [NL, NL] (paragraphs_of s) = s"
  using split_blank_lines_none [OF assms(2), of "[]"] assms(1)
  by (simp add: paragraphs_of_def)

text \<open>
  C8, amended. For a text no longer than \<^verbatim>\<open>max_chunk_size\<close>, \<^verbatim>\<open>chunk_text\<close>
  returns exactly one chunk: the stripped, non-empty paragraphs of the text joined by
  blank lines. That chunk is the text itself, character for character, when the text
  has no whitespace at either end and no paragraph break (no line feed that is
  followed, across whitespace only, by another line feed).
\<close>

theorem chunk_text_short:
  "int (length s) \<le> mx \<Longrightarrow>
   chunk_text s mx = [join [NL, NL] (paragraphs_of s)] \<and>
   (strip s = s \<and>
    (\<forall>i<length s. s ! i = NL \<longrightarrow> NL \<notin> set (takeWhile is_space (drop (Suc i) s)))
      \<longrightarrow> chunk_text s mx = [s])"
  using chunk_text_fits [of s mx] paragraphs_of_plain [of s] by simp

theorem chunk_text_short_witness:
  "int (length ''Hello world.'') \<le> 500 \<and>
   strip ''Hello world.'' = ''Hello world.'' \<and>
   chunk_text ''Hello world.'' 500 = [''Hello world.''] \<and>
   int (length ''a \<newline> \<newline>b\<newline>'') \<le> 500 \<and>
   chunk_text ''a \<newline> \<newline>b\<newline>'' 500 = [''a\<newline>\<newline>b'']"
proof -
  have a: "int (length ''Hello world.'') \<le> 500" by simp
  have b: "strip ''Hello world.'' = ''Hello world.''" by code_simp
  have c: "\<forall>i<length ''Hello world.''. ''Hello world.'' ! i = NL \<longrightarrow>
             NL \<notin> set (takeWhile is_space (drop (Suc i) ''Hello world.''))"
  proof -
    have "NL \<notin> set ''Hello world.''" by simp
    then show ?thesis by (metis nth_mem)
  qed
  have d: "int (length ''a \<newline> \<newline>b\<newline>'') \<le> 500" by simp
  have e: "join [NL, NL] (paragraphs_of ''a \<newline> \<newline>b\<newline>'') = ''a\<newline>\<newline>b''" by code_simp
  from chunk_text_short [OF a] b c
  have g: "chunk_text ''Hello world.'' 500 = [''Hello world.'']" by blast
  from chunk_text_short [OF d]
  have "chunk_text ''a \<newline> \<newline>b\<newline>'' 500 =
          [join [NL, NL] (paragraphs_of ''a \<newline> \<newline>b\<newline>'')]" by blast
  with e have h: "chunk_text ''a \<newline> \<newline>b\<newline>'' 500 = [''a\<newline>\<newline>b'']"
    by (simp only:)
  from a b g d h show ?thesis by blast
qed

section \<open>Storing\<close>

lemma dedup_identical: "deduplicate_content c docs [0] (23 / 25) = (True, Some 0)"
  by code_simp

lemma dedup_close: "deduplicate_content c docs [1 / 20] (23 / 25) = (True, Some 0)"
  by code_simp



lemma store_with_dedup_merge:
  assumes "vs_count W st \<noteq> 0"
    and "vs_query W st content 1 = Inr r"
    and "ids r = ids0 # ir" and "documents r = docs0 # dr" and "distances r = dists0 # sr"
    and "deduplicate_content content docs0 dists0 (similarity_threshold st) = (True, Some i)"
    and "i < length ids0" and "i < length docs0"
  shows "store_with_dedup W content meta st =
           Inr (ids0 ! i,
                vs_update (ids0 ! i)
                  (if length (docs0 ! i) \<le> length content then content else docs0 ! i) meta st)"
  using assms by (simp add: store_with_dedup_def item_def)

lemma store_with_dedup_write:
  assumes "store_with_dedup W content meta st = Inr (rid, st')"
  shows "\<exists>w. history st' = history st @ [w] \<and> w_id w = rid \<and>
             w_meta w = (if meta = Map.empty then None else Some meta) \<and>
             similarity_threshold st' = similarity_threshold st"
  using assms
  by (auto simp: store_with_dedup_def generate_id_def vs_add_def vs_update_def Let_def
           split: if_splits sum.splits prod.splits bool.splits option.splits)

lemma chunk_meta_nonempty: "chunk_meta base chunk \<noteq> Map.empty"
  by (simp add: chunk_meta_def)

lemma store_chunks_run:
  "store_chunks W base chunks acc st = Inr (out, st') \<Longrightarrow>
   \<exists>new ws. out = acc @ new \<and> length new = length chunks \<and>
     history st' = history st @ ws \<and> length ws = length chunks \<and>
     (\<forall>j<length chunks. w_id (ws ! j) = new ! j \<and>
                          w_meta (ws ! j) = Some (chunk_meta base (chunks ! j)))"
proof (induction chunks arbitrary: acc st)
  case Nil
  then show ?case by simp
next
  case (Cons chunk rest)
  from Cons.prems obtain rid st1 where
    one: "store_with_dedup W chunk (chunk_meta base chunk) st = Inr (rid, st1)"
    and more: "store_chunks W base rest (acc @ [rid]) st1 = Inr (out, st')"
    by (auto split: sum.splits)
  from store_with_dedup_write [OF one] chunk_meta_nonempty obtain w where
    w: "history st1 = history st @ [w]" "w_id w = rid"
       "w_meta w = Some (chunk_meta base chunk)"
    by auto
  from Cons.IH [OF more] obtain new ws where
    ih: "out = (acc @ [rid]) @ new" "length new = length rest"
        "history st' = history st1 @ ws" "length ws = length rest"
        "\<forall>j<length rest. w_id (ws ! j) = new ! j \<and>
                             w_meta (ws ! j) = Some (chunk_meta base (rest ! j))"
    by blast
  have each: "\<forall>j<length (chunk # rest). w_id ((w # ws) ! j) = (rid # new) ! j \<and>
                w_meta ((w # ws) ! j) = Some (chunk_meta base ((chunk # rest) ! j))"
  proof (intro allI impI)
    fix j assume "j < length (chunk # rest)"
    then show "w_id ((w # ws) ! j) = (rid # new) ! j \<and>
               w_meta ((w # ws) ! j) = Some (chunk_meta base ((chunk # rest) ! j))"
      using w ih(5) by (cases j) simp_all
  qed
  have "out = acc @ (rid # new)" using ih(1) by simp
  moreover have "length (rid # new) = length (chunk # rest)" using ih(2) by simp
  moreover have "history st' = history st @ (w # ws)" using ih(3) w(1) by simp
  moreover have "length (w # ws) = length (chunk # rest)" using ih(4) by simp
  ultimately show ?case using each by blast
qed




text \<open>
  C6. When the nearest neighbour of a chunk is classified as a duplicate,
  \<^verbatim>\<open>_store_with_dedup\<close> writes one update of that neighbour's entry, with the longer of
  the two texts (the chunk when they are equally long), returns the neighbour's id, and
  draws no new identifier. The answer of the index is taken to hold the id and the
  document at the index chosen.
\<close>

theorem merge_keeps_longer_text:
  assumes "vs_count W st \<noteq> 0"
    and "vs_query W st chunk 1 = Inr r"
    and "ids r = ids0 # ir" and "documents r = docs0 # dr" and "distances r = dists0 # sr"
    and "deduplicate_content chunk docs0 dists0 (similarity_threshold st) = (True, Some i)"
    and "i < length ids0" and "i < length docs0"
  shows "\<exists>st'. store_with_dedup W chunk meta st = Inr (ids0 ! i, st') \<and>
           history st' = history st @
             [Update (ids0 ! i)
                (if length (docs0 ! i) \<le> length chunk then chunk else docs0 ! i)
                (if meta = Map.empty then None else Some meta)] \<and>
           uuids_drawn st' = uuids_drawn st"
  using store_with_dedup_merge [OF assms, of meta] by (simp add: vs_update_def)

theorem merge_keeps_longer_text_witness:
  "(let r = \<lparr>ids = [[''m1'']], documents = [[''Paris is the capital of France.'']],
              metadatas = None, distances = [[0]]\<rparr>;
        W = example_world r;
        st = \<lparr>history = [Add ''m1'' ''Paris is the capital of France.'' None],
              similarity_threshold = 0.92, uuids_drawn = 1\<rparr>;
        chunk = ''Paris is the capital of FRANCE!'';
        meta = [''session_id'' \<mapsto> VStr ''s1'']
    in vs_count W st \<noteq> 0 \<and> vs_query W st chunk 1 = Inr r \<and>
       deduplicate_content chunk [''Paris is the capital of France.''] [0] 0.92 = (True, Some 0) \<and>
       (\<exists>st'. store_with_dedup W chunk meta st = Inr (''m1'', st') \<and>
              history st' = [Add ''m1'' ''Paris is the capital of France.'' None,
                             Update ''m1'' ''Paris is the capital of FRANCE!'' (Some meta)] \<and>
              uuids_drawn st' = 1))"
proof -
  define r where "r = \<lparr>ids = [[''m1'']], documents = [[''Paris is the capital of France.'']],
              metadatas = None, distances = [[0::real]]\<rparr>"
  define W where "W = example_world r"
  define st where "st = \<lparr>history = [Add ''m1'' ''Paris is the capital of France.'' None],
              similarity_threshold = 0.92, uuids_drawn = 1\<rparr>"
  define chunk where "chunk = ''Paris is the capital of FRANCE!''"
  define meta :: metadata where "meta = [''session_id'' \<mapsto> VStr ''s1'']"
  have c: "vs_count W st \<noteq> 0" by (simp add: vs_count_def W_def st_def example_world_def)
  have q: "vs_query W st chunk 1 = Inr r"
    by (simp add: vs_query_def vs_count_def W_def st_def example_world_def)
  have i: "ids r = [''m1''] # []" and d: "documents r = [''Paris is the capital of France.''] # []"
    and s: "distances r = [0] # []" by (simp_all add: r_def)
  have dd: "deduplicate_content chunk [''Paris is the capital of France.''] [0]
              (similarity_threshold st) = (True, Some 0)"
    by (simp add: st_def dedup_identical)
  have ne: "meta \<noteq> Map.empty" by (simp add: meta_def)
  from merge_keeps_longer_text [OF c q i d s dd, of meta] ne
  have "\<exists>st'. store_with_dedup W chunk meta st = Inr (''m1'', st') \<and>
              history st' = [Add ''m1'' ''Paris is the capital of France.'' None,
                             Update ''m1'' ''Paris is the capital of FRANCE!'' (Some meta)] \<and>
              uuids_drawn st' = 1"
    by (simp add: st_def chunk_def)
  with c q dd show ?thesis
    unfolding Let_def r_def W_def st_def chunk_def meta_def by simp
qed

lemma importance_short: "compute_importance ''Paris is the capital.'' = 0.512"
  by code_simp

lemma importance_long: "compute_importance ''Paris is the capital of France.'' = 0.518"
  by code_simp

text \<open>
  C1, as stated, fails. The chunk \<^verbatim>\<open>Paris is the capital.\<close> is a duplicate of the
  longer entry \<^verbatim>\<open>Paris is the capital of France.\<close>; the longer text is kept, and the
  importance written with it is that of the chunk.
\<close>

theorem merge_importance_counterexample:
  "(let r = \<lparr>ids = [[''m1'']], documents = [[''Paris is the capital of France.'']],
              metadatas = None, distances = [[0.05]]\<rparr>;
        W = example_world r;
        st = \<lparr>history = [Add ''m1'' ''Paris is the capital of France.'' None],
              similarity_threshold = 0.92, uuids_drawn = 1\<rparr>
    in store W 1000 ''Paris is the capital.'' None None True st =
         Inr ([''m1''],
              \<lparr>history =
                 [Add ''m1'' ''Paris is the capital of France.'' None,
                  Update ''m1'' ''Paris is the capital of France.''
                    (Some [''timestamp'' \<mapsto> VFloat 1000, ''session_id'' \<mapsto> VStr ''unknown'',
                           ''importance'' \<mapsto> VFloat 0.512])],
               similarity_threshold = 0.92, uuids_drawn = 1\<rparr>) \<and>
       VFloat 0.512 \<noteq> VFloat (compute_importance ''Paris is the capital of France.''))"
  by (simp add: Let_def store_def chunks_of_def base_meta_def chunk_meta_def
        store_with_dedup_def vs_count_def vs_query_def vs_update_def example_world_def
        dedup_close item_def importance_short importance_long)

lemma chunk_meta_importance:
  "chunk_meta base chunk ''importance'' = Some (VFloat (compute_importance chunk))"
  by (simp add: chunk_meta_def)

text \<open>
  C1, amended. On the merge path the importance written is \<^verbatim>\<open>compute_importance\<close>
  of the incoming chunk. It is the importance of the text stored whenever the chunk
  is at least as long as the existing document, since the chunk is then the text
  stored.
\<close>

theorem merge_importance_of_chunk:
  assumes "vs_count W st \<noteq> 0"
    and "vs_query W st chunk 1 = Inr r"
    and "ids r = ids0 # ir" and "documents r = docs0 # dr" and "distances r = dists0 # sr"
    and "deduplicate_content chunk docs0 dists0 (similarity_threshold st) = (True, Some i)"
    and "i < length ids0" and "i < length docs0"
  shows "\<exists>m merged st'.
           store_with_dedup W chunk (chunk_meta base chunk) st = Inr (ids0 ! i, st') \<and>
           merged = (if length (docs0 ! i) \<le> length chunk then chunk else docs0 ! i) \<and>
           history st' = history st @ [Update (ids0 ! i) merged (Some m)] \<and>
           m ''importance'' = Some (VFloat (compute_importance chunk)) \<and>
           (length (docs0 ! i) \<le> length chunk \<longrightarrow>
              m ''importance'' = Some (VFloat (compute_importance merged)))"
  using store_with_dedup_merge [OF assms, of "chunk_meta base chunk"]
  by (simp add: vs_update_def chunk_meta_nonempty chunk_meta_importance)

theorem merge_importance_of_chunk_witness:
  "(let r = \<lparr>ids = [[''m1'']], documents = [[''Paris is the capital.'']],
              metadatas = None, distances = [[0.05]]\<rparr>;
        W = example_world r;
        st = \<lparr>history = [Add ''m1'' ''Paris is the capital.'' None],
              similarity_threshold = 0.92, uuids_drawn = 1\<rparr>;
        chunk = ''Paris is the capital of France.''
    in vs_count W st \<noteq> 0 \<and> vs_query W st chunk 1 = Inr r \<and>
       deduplicate_content chunk [''Paris is the capital.''] [0.05] 0.92 = (True, Some 0) \<and>
       length ''Paris is the capital.'' \<le> length chunk \<and>
       (\<exists>m st'. store_with_dedup W chunk (chunk_meta Map.empty chunk) st = Inr (''m1'', st') \<and>
              history st' = [Add ''m1'' ''Paris is the capital.'' None,
                             Update ''m1'' ''Paris is the capital of France.'' (Some m)] \<and>
              m ''importance'' = Some (VFloat (compute_importance ''Paris is the capital of France.''))))"
proof -
  define r where "r = \<lparr>ids = [[''m1'']], documents = [[''Paris is the capital.'']],
              metadatas = None, distances = [[0.05::real]]\<rparr>"
  define W where "W = example_world r"
  define st where "st = \<lparr>history = [Add ''m1'' ''Paris is the capital.'' None],
              similarity_threshold = 0.92, uuids_drawn = 1\<rparr>"
  define chunk where "chunk = ''Paris is the capital of France.''"
  have c: "vs_count W st \<noteq> 0" by (simp add: vs_count_def W_def st_def example_world_def)
  have q: "vs_query W st chunk 1 = Inr r"
    by (simp add: vs_query_def vs_count_def W_def st_def example_world_def)
  have i: "ids r = [''m1''] # []" and d: "documents r = [''Paris is the capital.''] # []"
    and s: "distances r = [0.05] # []" by (simp_all add: r_def)
  have dd: "deduplicate_content chunk [''Paris is the capital.''] [0.05]
              (similarity_threshold st) = (True, Some 0)"
    by (simp add: st_def dedup_close)
  have len: "length ''Paris is the capital.'' \<le> length chunk" by (simp add: chunk_def)
  from merge_importance_of_chunk [OF c q i d s dd, of Map.empty] len
  have "\<exists>m st'. store_with_dedup W chunk (chunk_meta Map.empty chunk) st = Inr (''m1'', st') \<and>
              history st' = [Add ''m1'' ''Paris is the capital.'' None,
                             Update ''m1'' ''Paris is the capital of France.'' (Some m)] \<and>
              m ''importance'' = Some (VFloat (compute_importance ''Paris is the capital of France.''))"
    by (simp add: st_def chunk_def)
  with c q dd len show ?thesis
    unfolding Let_def r_def W_def st_def chunk_def by simp
qed

lemma base_meta_caller:
  "k \<in> dom md \<Longrightarrow> base_meta now sid content (Some md) k = md k"
  by (auto simp: base_meta_def Let_def map_add_dom_app_simps)

lemma chunk_meta_other:
  "k \<noteq> ''importance'' \<Longrightarrow> chunk_meta base chunk k = base k"
  by (simp add: chunk_meta_def)

text \<open>
  C7, amended. Every write that \<^verbatim>\<open>store\<close> issues, one per chunk, carries metadata that
  maps each key of the caller, \<^verbatim>\<open>importance\<close> apart, to the caller's value (so the
  caller wins over the defaults of \<^verbatim>\<open>timestamp\<close> and \<^verbatim>\<open>session_id\<close>), and maps
  \<^verbatim>\<open>importance\<close> to the score of the chunk, whatever the caller supplied.
\<close>

theorem store_caller_metadata:
  assumes "store W now content (Some md) sid auto_chunk st = Inr (out, st')"
  shows "\<exists>ws. history st' = history st @ ws \<and>
           length ws = length (chunks_of content auto_chunk) \<and>
           (\<forall>j<length ws. \<exists>m. w_meta (ws ! j) = Some m \<and>
              (\<forall>k\<in>dom md. k \<noteq> ''importance'' \<longrightarrow> m k = md k) \<and>
              m ''importance'' =
                Some (VFloat (compute_importance (chunks_of content auto_chunk ! j))))"
proof -
  let ?base = "base_meta now sid content (Some md)"
  let ?chunks = "chunks_of content auto_chunk"
  from assms have "store_chunks W ?base ?chunks [] st = Inr (out, st')"
    by (simp add: store_def)
  from store_chunks_run [OF this] obtain ws where
    ws: "history st' = history st @ ws" "length ws = length ?chunks"
        "\<forall>j<length ?chunks. w_meta (ws ! j) = Some (chunk_meta ?base (?chunks ! j))"
    by blast
  have "\<exists>m. w_meta (ws ! j) = Some m \<and>
              (\<forall>k\<in>dom md. k \<noteq> ''importance'' \<longrightarrow> m k = md k) \<and>
              m ''importance'' = Some (VFloat (compute_importance (?chunks ! j)))"
    if "j < length ws" for j
  proof -
    from that ws have "w_meta (ws ! j) = Some (chunk_meta ?base (?chunks ! j))" by simp
    moreover have "\<forall>k\<in>dom md. k \<noteq> ''importance'' \<longrightarrow> chunk_meta ?base (?chunks ! j) k = md k"
      by (simp add: chunk_meta_other base_meta_caller)
    ultimately show ?thesis using chunk_meta_importance by blast
  qed
  with ws(1,2) show ?thesis by blast
qed

text \<open>
  C7, as stated, fails: an \<^verbatim>\<open>importance\<close> of 0.99 supplied by the caller is
  replaced by the score of the chunk.
\<close>

theorem store_caller_metadata_counterexample:
  "store (example_world \<lparr>ids = [[]], documents = [[]], metadatas = None, distances = [[]]\<rparr>)
     1000 ''hi'' (Some [''importance'' \<mapsto> VFloat 0.99]) None True
     \<lparr>history = [], similarity_threshold = 0.92, uuids_drawn = 0\<rparr> =
   Inr ([''id-''],
        \<lparr>history =
           [Add ''id-'' ''hi''
              (Some [''timestamp'' \<mapsto> VFloat 1000, ''session_id'' \<mapsto> VStr ''unknown'',
                     ''importance'' \<mapsto> VFloat 0.503])],
         similarity_threshold = 0.92, uuids_drawn = 1\<rparr>) \<and>
   VFloat 0.503 \<noteq> VFloat 0.99"
proof -
  have v: "compute_importance ''hi'' = 0.503" by code_simp
  show ?thesis
    by (simp add: store_def chunks_of_def base_meta_def chunk_meta_def
        store_with_dedup_def vs_count_def vs_add_def generate_id_def example_world_def v)
qed

theorem store_caller_metadata_witness:
  "(let W = example_world \<lparr>ids = [[]], documents = [[]], metadatas = None, distances = [[]]\<rparr>;
        st = \<lparr>history = [], similarity_threshold = 0.92, uuids_drawn = 0\<rparr>;
        md = [''source'' \<mapsto> VStr ''unit_test'', ''timestamp'' \<mapsto> VFloat 7]
    in \<exists>out st'. store W 1000 ''Meta test.'' (Some md) (Some ''s1'') True st = Inr (out, st') \<and>
         (\<exists>m. map w_meta (history st') = [Some m] \<and>
              m ''source'' = Some (VStr ''unit_test'') \<and> m ''timestamp'' = Some (VFloat 7) \<and>
              m ''importance'' = Some (VFloat (compute_importance ''Meta test.''))))"
proof -
  define W where "W = example_world \<lparr>ids = [[]], documents = [[]], metadatas = None, distances = [[]]\<rparr>"
  define st where "st = \<lparr>history = [], similarity_threshold = 0.92, uuids_drawn = 0\<rparr>"
  define md :: metadata where "md = [''source'' \<mapsto> VStr ''unit_test'', ''timestamp'' \<mapsto> VFloat 7]"
  obtain out st' where run: "store W 1000 ''Meta test.'' (Some md) (Some ''s1'') True st = Inr (out, st')"
    by (simp add: store_def chunks_of_def store_with_dedup_def vs_count_def W_def st_def
          example_world_def generate_id_def)
  have ch: "chunks_of ''Meta test.'' True = [''Meta test.'']" by (simp add: chunks_of_def)
  from store_caller_metadata [OF run] obtain ws where
    ws: "history st' = history st @ ws" "length ws = 1"
        "\<forall>j<length ws. \<exists>m. w_meta (ws ! j) = Some m \<and>
              (\<forall>k\<in>dom md. k \<noteq> ''importance'' \<longrightarrow> m k = md k) \<and>
              m ''importance'' = Some (VFloat (compute_importance (chunks_of ''Meta test.'' True ! j)))"
    unfolding ch by auto
  from ws(2) obtain w where w: "ws = [w]" by (cases ws) auto
  with ws(3) ch obtain m where m: "w_meta w = Some m"
      "\<forall>k\<in>dom md. k \<noteq> ''importance'' \<longrightarrow> m k = md k"
      "m ''importance'' = Some (VFloat (compute_importance ''Meta test.''))" by auto
  from m(2) have a: "m ''source'' = Some (VStr ''unit_test'')" "m ''timestamp'' = Some (VFloat 7)"
    by (simp_all add: md_def)
  have h: "map w_meta (history st') = [Some m]" using ws(1) w m(1) by (simp add: st_def)
  have "\<exists>out st'. store W 1000 ''Meta test.'' (Some md) (Some ''s1'') True st = Inr (out, st') \<and>
         (\<exists>m. map w_meta (history st') = [Some m] \<and>
              m ''source'' = Some (VStr ''unit_test'') \<and> m ''timestamp'' = Some (VFloat 7) \<and>
              m ''importance'' = Some (VFloat (compute_importance ''Meta test.'')))"
  proof (intro exI conjI)
    show "store W 1000 ''Meta test.'' (Some md) (Some ''s1'') True st = Inr (out, st')"
      by (rule run)
    show "map w_meta (history st') = [Some m]" by (rule h)
    show "m ''source'' = Some (VStr ''unit_test'')" by (rule a(1))
    show "m ''timestamp'' = Some (VFloat 7)" by (rule a(2))
    show "m ''importance'' = Some (VFloat (compute_importance ''Meta test.''))" by (rule m(3))
  qed
  then show ?thesis
    unfolding Let_def W_def st_def md_def .
qed



section \<open>Retrieving\<close>

lemma sort_reverse_mset: "mset (sort_reverse key xs) = mset xs"
  by (simp add: sort_reverse_def)

lemma sort_reverse_sorted: "sorted_wrt (\<lambda>a b. key a \<ge> key b) (sort_reverse key xs)"
proof -
  have "sorted (map key (sort_key key (rev xs)))" by (rule sorted_sort_key)
  then have "sorted_wrt (\<lambda>a b. key a \<le> key b) (sort_key key (rev xs))"
    by (simp add: sorted_wrt_map)
  then show ?thesis by (simp add: sort_reverse_def sorted_wrt_rev)
qed

lemma sort_reverse_stable:
  "filter (\<lambda>y. key y = k) (sort_reverse key xs) = filter (\<lambda>y. key y = k) xs"
proof -
  have "filter (\<lambda>y. key y = k) (sort_reverse key xs)
          = rev (filter (\<lambda>y. key y = k) (sort_key key (rev xs)))"
    by (simp add: sort_reverse_def rev_filter)
  also have "\<dots> = rev (filter (\<lambda>y. key y = k) (rev xs))" by (simp only: sort_key_stable)
  also have "\<dots> = filter (\<lambda>y. key y = k) xs" by (simp add: rev_filter)
  finally show ?thesis .
qed

lemma slice_to_sorted: "sorted_wrt R xs \<Longrightarrow> sorted_wrt R (slice_to n xs)"
  by (simp add: slice_to_def sorted_wrt_take)

lemma slice_to_length: "0 \<le> n \<Longrightarrow> length (slice_to n xs) \<le> nat n"
  by (simp add: slice_to_def)

lemma collect_char:
  "collect W mi ids0 metas0 dists0 i docs acc = Inr ms \<Longrightarrow>
   ms = acc @
     map (\<lambda>(j, doc). \<lparr>mem_id = ids0 ! j, mem_content = doc,
                       mem_metadata = the (metas0 ! j), mem_similarity = fl (1 - dists0 ! j)\<rparr>)
       (filter (\<lambda>(j, doc). case importance_of W (the (metas0 ! j)) of
                                 Inr v \<Rightarrow> mi \<le> v | Inl _ \<Rightarrow> False)
          (enumerate i docs))"
proof (induction docs arbitrary: i acc)
  case Nil
  then show ?case by simp
next
  case (Cons doc rest)
  from Cons.prems obtain meta r where
    m: "i < length metas0" "metas0 ! i = Some meta" "importance_of W meta = Inr r"
    by (auto simp: item_def split: if_splits sum.splits option.splits)
  show ?case
  proof (cases "r < mi")
    case True
    with Cons.prems m have "collect W mi ids0 metas0 dists0 (Suc i) rest acc = Inr ms"
      by (simp add: item_def)
    from Cons.IH [OF this] True m show ?thesis by auto
  next
    case False
    with Cons.prems m have r: "i < length dists0" "i < length ids0"
      "collect W mi ids0 metas0 dists0 (Suc i) rest
         (acc @ [\<lparr>mem_id = ids0 ! i, mem_content = doc, mem_metadata = meta,
                  mem_similarity = fl (1 - dists0 ! i)\<rparr>]) = Inr ms"
      by (auto simp: item_def split: if_splits)
    from Cons.IH [OF r(3)] False m show ?thesis by auto
  qed
qed

lemma collect_importance:
  "collect W mi ids0 metas0 dists0 i docs acc = Inr ms \<Longrightarrow>
   \<forall>m\<in>set acc. \<exists>r. importance_of W (mem_metadata m) = Inr r \<and> mi \<le> r \<Longrightarrow>
   \<forall>m\<in>set ms. \<exists>r. importance_of W (mem_metadata m) = Inr r \<and> mi \<le> r"
proof (induction docs arbitrary: i acc)
  case Nil
  then show ?case by simp
next
  case (Cons doc rest)
  from Cons.prems(1) obtain meta r where
    m: "i < length metas0" "metas0 ! i = Some meta" "importance_of W meta = Inr r"
    by (auto simp: item_def split: if_splits sum.splits option.splits)
  show ?case
  proof (cases "r < mi")
    case True
    with Cons.prems m have "collect W mi ids0 metas0 dists0 (Suc i) rest acc = Inr ms"
      by (simp add: item_def)
    from Cons.IH [OF this Cons.prems(2)] show ?thesis .
  next
    case False
    with Cons.prems m have r: "i < length dists0" "i < length ids0"
      "collect W mi ids0 metas0 dists0 (Suc i) rest
         (acc @ [\<lparr>mem_id = ids0 ! i, mem_content = doc, mem_metadata = meta,
                  mem_similarity = fl (1 - dists0 ! i)\<rparr>]) = Inr ms"
      by (auto simp: item_def split: if_splits)
    have "\<forall>m\<in>set (acc @ [\<lparr>mem_id = ids0 ! i, mem_content = doc, mem_metadata = meta,
                  mem_similarity = fl (1 - dists0 ! i)\<rparr>]).
            \<exists>r. importance_of W (mem_metadata m) = Inr r \<and> mi \<le> r"
      using Cons.prems(2) m False by auto
    from Cons.IH [OF r(3) this] show ?thesis .
  qed
qed

lemma rerank_char:
  assumes "rerank W r n mi = Inr ms"
  shows "\<exists>docs ids0 dists0 metas0 survivors.
           item (documents r) 0 = Inr docs \<and> item (ids r) 0 = Inr ids0 \<and>
           item (distances r) 0 = Inr dists0 \<and>
           metas0 = (case metadatas r of
                       None \<Rightarrow> replicate (length docs) (Some Map.empty)
                     | Some [] \<Rightarrow> replicate (length docs) (Some Map.empty)
                     | Some (m0 # _) \<Rightarrow> m0) \<and>
           collect W mi ids0 metas0 dists0 0 docs [] = Inr survivors \<and>
           ms = slice_to n (sort_reverse (blended W) survivors)"
proof -
  from assms obtain docs where d: "item (documents r) 0 = Inr docs"
    by (auto simp: rerank_def split: sum.splits)
  from assms d obtain ids0 where i: "item (ids r) 0 = Inr ids0"
    by (auto simp: rerank_def split: sum.splits)
  from assms d i obtain dists0 where s: "item (distances r) 0 = Inr dists0"
    by (auto simp: rerank_def Let_def split: sum.splits)
  let ?metas0 = "case metadatas r of
                       None \<Rightarrow> replicate (length docs) (Some Map.empty)
                     | Some [] \<Rightarrow> replicate (length docs) (Some Map.empty)
                     | Some (m0 # _) \<Rightarrow> m0"
  have m: "item (case metadatas r of
                     None \<Rightarrow> [replicate (length docs) (Some Map.empty)]
                   | Some [] \<Rightarrow> [replicate (length docs) (Some Map.empty)]
                   | Some ms \<Rightarrow> ms) 0 = Inr ?metas0"
    by (simp add: item_def split: option.splits list.splits)
  from assms d i s m obtain survivors where
    c: "collect W mi ids0 ?metas0 dists0 0 docs [] = Inr survivors"
    and e: "ms = slice_to n (sort_reverse (blended W) survivors)"
    by (auto simp: rerank_def Let_def split: sum.splits)
  from d i s c e show ?thesis by blast
qed

lemma collect_returns:
  assumes "\<forall>x\<in>set metas0. \<exists>meta v. x = Some meta \<and> importance_of W meta = Inr v"
  shows "i + length docs \<le> length metas0 \<Longrightarrow> i + length docs \<le> length dists0 \<Longrightarrow>
         i + length docs \<le> length ids0 \<Longrightarrow>
         \<exists>ms. collect W mi ids0 metas0 dists0 i docs acc = Inr ms"
proof (induction docs arbitrary: i acc)
  case Nil
  then show ?case by simp
next
  case (Cons doc rest)
  from Cons.prems have lt: "i < length metas0" "i < length dists0" "i < length ids0" by simp_all
  with assms obtain meta v where m: "metas0 ! i = Some meta" "importance_of W meta = Inr v"
    using nth_mem by blast
  from Cons.prems have nxt: "Suc i + length rest \<le> length metas0"
    "Suc i + length rest \<le> length dists0" "Suc i + length rest \<le> length ids0" by simp_all
  from Cons.IH [OF nxt] lt m show ?case by (simp add: item_def)
qed

lemma readable_item:
  "(case x of None \<Rightarrow> False
    | Some meta \<Rightarrow> (case importance_of W meta of Inr _ \<Rightarrow> True | Inl _ \<Rightarrow> False)) \<Longrightarrow>
   \<exists>meta v. x = Some meta \<and> importance_of W meta = Inr v"
  by (cases x; cases "importance_of W (the x)") auto

lemma importance_of_empty: "importance_of W Map.empty = Inr 0"
  by (simp add: importance_of_def)

lemma rerank_returns:
  assumes "readable W r"
  shows "\<exists>ms. rerank W r n mi = Inr ms"
proof -
  from assms have p: "parallel_lists r" by (simp add: readable_def)
  then obtain ids0 docs dists0 where
    shape: "ids r = [ids0]" "documents r = [docs]" "distances r = [dists0]"
    and len: "length ids0 = length docs" "length docs = length dists0"
    by (auto simp: parallel_lists_def length_Suc_conv)
  let ?metas0 = "case metadatas r of
                       None \<Rightarrow> replicate (length docs) (Some Map.empty)
                     | Some [] \<Rightarrow> replicate (length docs) (Some Map.empty)
                     | Some (m0 # _) \<Rightarrow> m0"
  have m: "item (case metadatas r of
                     None \<Rightarrow> [replicate (length docs) (Some Map.empty)]
                   | Some [] \<Rightarrow> [replicate (length docs) (Some Map.empty)]
                   | Some ms \<Rightarrow> ms) 0 = Inr ?metas0"
    by (simp add: item_def split: option.splits list.splits)
  have ml: "length ?metas0 = length docs"
    using assms shape by (simp add: readable_def split: option.splits list.splits)
  have ok: "\<forall>x\<in>set ?metas0. \<exists>meta v. x = Some meta \<and> importance_of W meta = Inr v"
  proof (cases "\<exists>m0 rest. metadatas r = Some (m0 # rest)")
    case True
    then obtain m0 rest where ms: "metadatas r = Some (m0 # rest)" by blast
    with assms have "\<forall>x\<in>set m0. case x of
                            None \<Rightarrow> False
                          | Some meta \<Rightarrow> (case importance_of W meta of
                                           Inr _ \<Rightarrow> True | Inl _ \<Rightarrow> False)"
      by (simp add: readable_def list_all_iff)
    then have "\<forall>x\<in>set m0. \<exists>meta v. x = Some meta \<and> importance_of W meta = Inr v"
      using readable_item by blast
    with ms show ?thesis by simp
  next
    case False
    then have "?metas0 = replicate (length docs) (Some Map.empty)"
      by (auto split: option.splits list.splits)
    then show ?thesis by (simp add: importance_of_empty)
  qed
  from collect_returns [OF ok, of 0 docs dists0 ids0 mi "[]"] ml len
  obtain ms where "collect W mi ids0 ?metas0 dists0 0 docs [] = Inr ms" by auto
  with shape m show ?thesis by (simp add: rerank_def item_def Let_def)
qed

text \<open>
  C4, as stated, fails: \<^verbatim>\<open>n_results\<close> is an \<^verbatim>\<open>int\<close> that nothing checks, and with
  \<open>- 1\<close> on an empty index \<^verbatim>\<open>retrieve\<close> returns the empty list, which does not hold
  at most \<open>- 1\<close> memories.
\<close>

theorem retrieve_negative_counterexample:
  "retrieve (example_world \<lparr>ids = [[]], documents = [[]], metadatas = None, distances = [[]]\<rparr>)
     ''anything'' (- 1) 0 \<lparr>history = [], similarity_threshold = SIMILARITY_THRESHOLD, uuids_drawn = 0\<rparr> = Inr [] \<and>
   \<not> int (length ([] :: memory list)) \<le> - 1"
  by (simp add: retrieve_def vs_count_def example_world_def)

text \<open>
  C4, amended. When \<^verbatim>\<open>retrieve\<close> returns, the list returned is in descending order of
  the blended score, \<open>similarity * 0.7 + importance * 0.3\<close> as double arithmetic computes
  it, and, for a non-negative \<^verbatim>\<open>n_results\<close>, holds at most \<^verbatim>\<open>n_results\<close> memories.
  It is what \<^verbatim>\<open>[:n_results]\<close> keeps of a ranking of the surviving candidates (those of
  the query result whose importance is at least \<^verbatim>\<open>min_importance\<close>, in the order of
  the query result): the ranking holds the same candidates, in descending order of the
  blended score, and candidates with the same score stand in it in the order they have
  among the survivors. On an empty index the list is empty. \<^verbatim>\<open>retrieve\<close> does return
  when the index is empty or its answer is one it can read.
\<close>

theorem retrieve_reranks:
  "(retrieve W q n mi st = Inr ms \<longrightarrow>
      sorted_wrt (\<lambda>a b. blended W a \<ge> blended W b) ms \<and>
      (0 \<le> n \<longrightarrow> length ms \<le> nat n) \<and>
      (\<forall>m\<in>set ms. \<exists>v. importance_of W (mem_metadata m) = Inr v \<and> mi \<le> v \<and>
                          blended W m = fl (fl (mem_similarity m * fl 0.7) + fl (v * fl 0.3))) \<and>
      (vs_count W st = 0 \<longrightarrow> ms = []) \<and>
      (vs_count W st \<noteq> 0 \<longrightarrow>
         (\<exists>r docs ids0 dists0 metas0 survivors ranked.
            vs_query W st q (min (n * 3) (int (vs_count W st))) = Inr r \<and>
            item (documents r) 0 = Inr docs \<and> item (ids r) 0 = Inr ids0 \<and>
            item (distances r) 0 = Inr dists0 \<and>
            metas0 = (case metadatas r of
                        None \<Rightarrow> replicate (length docs) (Some Map.empty)
                      | Some [] \<Rightarrow> replicate (length docs) (Some Map.empty)
                      | Some (m0 # _) \<Rightarrow> m0) \<and>
            survivors =
              map (\<lambda>(j, doc). \<lparr>mem_id = ids0 ! j, mem_content = doc,
                                mem_metadata = the (metas0 ! j),
                                mem_similarity = fl (1 - dists0 ! j)\<rparr>)
                (filter (\<lambda>(j, doc). case importance_of W (the (metas0 ! j)) of
                                        Inr v \<Rightarrow> mi \<le> v | Inl _ \<Rightarrow> False)
                   (enumerate 0 docs)) \<and>
            mset ranked = mset survivors \<and>
            sorted_wrt (\<lambda>a b. blended W a \<ge> blended W b) ranked \<and>
            (\<forall>k. filter (\<lambda>m. blended W m = k) ranked =
                 filter (\<lambda>m. blended W m = k) survivors) \<and>
            ms = slice_to n ranked))) \<and>
   ((vs_count W st = 0 \<or>
     (\<exists>r. vs_query W st q (min (n * 3) (int (vs_count W st))) = Inr r \<and> readable W r)) \<longrightarrow>
      (\<exists>ms. retrieve W q n mi st = Inr ms))"
proof (intro conjI impI)
  assume run: "retrieve W q n mi st = Inr ms"
  show empty: "ms = []" if "vs_count W st = 0"
    using run that by (simp add: retrieve_def)
  have full: "\<exists>r docs ids0 dists0 metas0 survivors ranked.
            vs_query W st q (min (n * 3) (int (vs_count W st))) = Inr r \<and>
            item (documents r) 0 = Inr docs \<and> item (ids r) 0 = Inr ids0 \<and>
            item (distances r) 0 = Inr dists0 \<and>
            metas0 = (case metadatas r of
                        None \<Rightarrow> replicate (length docs) (Some Map.empty)
                      | Some [] \<Rightarrow> replicate (length docs) (Some Map.empty)
                      | Some (m0 # _) \<Rightarrow> m0) \<and>
            survivors =
              map (\<lambda>(j, doc). \<lparr>mem_id = ids0 ! j, mem_content = doc,
                                mem_metadata = the (metas0 ! j),
                                mem_similarity = fl (1 - dists0 ! j)\<rparr>)
                (filter (\<lambda>(j, doc). case importance_of W (the (metas0 ! j)) of
                                        Inr v \<Rightarrow> mi \<le> v | Inl _ \<Rightarrow> False)
                   (enumerate 0 docs)) \<and>
            mset ranked = mset survivors \<and>
            sorted_wrt (\<lambda>a b. blended W a \<ge> blended W b) ranked \<and>
            (\<forall>k. filter (\<lambda>m. blended W m = k) ranked =
                 filter (\<lambda>m. blended W m = k) survivors) \<and>
            ms = slice_to n ranked"
    if ne: "vs_count W st \<noteq> 0"
  proof -
    from run ne obtain r where
      q: "vs_query W st q (min (n * 3) (int (vs_count W st))) = Inr r"
      and rr: "rerank W r n mi = Inr ms"
      by (auto simp: retrieve_def Let_def split: sum.splits)
    from rerank_char [OF rr] obtain docs ids0 dists0 metas0 survivors where
      c: "item (documents r) 0 = Inr docs" "item (ids r) 0 = Inr ids0"
         "item (distances r) 0 = Inr dists0"
         "metas0 = (case metadatas r of
                        None \<Rightarrow> replicate (length docs) (Some Map.empty)
                      | Some [] \<Rightarrow> replicate (length docs) (Some Map.empty)
                      | Some (m0 # _) \<Rightarrow> m0)"
         "collect W mi ids0 metas0 dists0 0 docs [] = Inr survivors"
         "ms = slice_to n (sort_reverse (blended W) survivors)"
      by blast
    from collect_char [OF c(5)] have s: "survivors =
              map (\<lambda>(j, doc). \<lparr>mem_id = ids0 ! j, mem_content = doc,
                                mem_metadata = the (metas0 ! j),
                                mem_similarity = fl (1 - dists0 ! j)\<rparr>)
                (filter (\<lambda>(j, doc). case importance_of W (the (metas0 ! j)) of
                                        Inr v \<Rightarrow> mi \<le> v | Inl _ \<Rightarrow> False)
                   (enumerate 0 docs))"
      by simp
    let ?ranked = "sort_reverse (blended W) survivors"
    have "mset ?ranked = mset survivors" by (rule sort_reverse_mset)
    moreover have "sorted_wrt (\<lambda>a b. blended W a \<ge> blended W b) ?ranked"
      by (rule sort_reverse_sorted)
    moreover have "\<forall>k. filter (\<lambda>m. blended W m = k) ?ranked =
                        filter (\<lambda>m. blended W m = k) survivors"
      by (simp add: sort_reverse_stable)
    ultimately show ?thesis using q c(1-4) s c(6) by blast
  qed
  from full show "vs_count W st \<noteq> 0 \<Longrightarrow> \<exists>r docs ids0 dists0 metas0 survivors ranked.
            vs_query W st q (min (n * 3) (int (vs_count W st))) = Inr r \<and>
            item (documents r) 0 = Inr docs \<and> item (ids r) 0 = Inr ids0 \<and>
            item (distances r) 0 = Inr dists0 \<and>
            metas0 = (case metadatas r of
                        None \<Rightarrow> replicate (length docs) (Some Map.empty)
                      | Some [] \<Rightarrow> replicate (length docs) (Some Map.empty)
                      | Some (m0 # _) \<Rightarrow> m0) \<and>
            survivors =
              map (\<lambda>(j, doc). \<lparr>mem_id = ids0 ! j, mem_content = doc,
                                mem_metadata = the (metas0 ! j),
                                mem_similarity = fl (1 - dists0 ! j)\<rparr>)
                (filter (\<lambda>(j, doc). case importance_of W (the (metas0 ! j)) of
                                        Inr v \<Rightarrow> mi \<le> v | Inl _ \<Rightarrow> False)
                   (enumerate 0 docs)) \<and>
            mset ranked = mset survivors \<and>
            sorted_wrt (\<lambda>a b. blended W a \<ge> blended W b) ranked \<and>
            (\<forall>k. filter (\<lambda>m. blended W m = k) ranked =
                 filter (\<lambda>m. blended W m = k) survivors) \<and>
            ms = slice_to n ranked" .
  show srt: "sorted_wrt (\<lambda>a b. blended W a \<ge> blended W b) ms"
  proof (cases "vs_count W st = 0")
    case True
    with empty show ?thesis by simp
  next
    case False
    from full [OF False] obtain ranked where
      "sorted_wrt (\<lambda>a b. blended W a \<ge> blended W b) ranked" "ms = slice_to n ranked"
      by blast
    then show ?thesis by (simp add: slice_to_sorted)
  qed
  show "\<forall>m\<in>set ms. \<exists>v. importance_of W (mem_metadata m) = Inr v \<and> mi \<le> v \<and>
                          blended W m = fl (fl (mem_similarity m * fl 0.7) + fl (v * fl 0.3))"
  proof (cases "vs_count W st = 0")
    case True
    with empty show ?thesis by simp
  next
    case False
    with run obtain r where rr: "rerank W r n mi = Inr ms"
      by (auto simp: retrieve_def Let_def split: sum.splits)
    from rerank_char [OF rr] obtain docs ids0 dists0 metas0 survivors where
      c: "collect W mi ids0 metas0 dists0 0 docs [] = Inr survivors"
         "ms = slice_to n (sort_reverse (blended W) survivors)"
      by blast
    from collect_importance [OF c(1)]
    have imp: "\<forall>m\<in>set survivors. \<exists>v. importance_of W (mem_metadata m) = Inr v \<and> mi \<le> v"
      by simp
    have "set ms \<subseteq> set survivors"
      using c(2) set_take_subset [of _ "sort_reverse (blended W) survivors"]
      by (auto simp: slice_to_def sort_reverse_def)
    with imp have "\<forall>m\<in>set ms. \<exists>v. importance_of W (mem_metadata m) = Inr v \<and> mi \<le> v"
      by blast
    then show ?thesis by (auto simp: blended_def)
  qed
  show "length ms \<le> nat n" if "0 \<le> n"
  proof (cases "vs_count W st = 0")
    case True
    with empty show ?thesis by simp
  next
    case False
    from full [OF False] obtain ranked where "ms = slice_to n ranked" by blast
    with that show ?thesis by (simp add: slice_to_length)
  qed
next
  assume a: "vs_count W st = 0 \<or>
     (\<exists>r. vs_query W st q (min (n * 3) (int (vs_count W st))) = Inr r \<and> readable W r)"
  show "\<exists>ms. retrieve W q n mi st = Inr ms"
  proof (cases "vs_count W st = 0")
    case True
    then show ?thesis by (simp add: retrieve_def)
  next
    case False
    with a obtain r where
      q: "vs_query W st q (min (n * 3) (int (vs_count W st))) = Inr r" and "readable W r"
      by blast
    from rerank_returns [OF this(2), of n mi] obtain ms where "rerank W r n mi = Inr ms" by blast
    with False q show ?thesis by (simp add: retrieve_def Let_def)
  qed
qed

lemma fl_half: "fl (1 / 2) = 1 / 2"
  by code_simp

lemma fl_three_fourths: "fl (3 / 4) = 3 / 4"
  by code_simp

theorem retrieve_reranks_witness:
  "(let r = \<lparr>ids = [[''a'', ''b'', ''c'', ''d'']],
              documents = [[''doc a'', ''doc b'', ''doc c'', ''doc d'']],
              metadatas = Some [[Some [''importance'' \<mapsto> VFloat (1 / 4)],
                                 Some [''importance'' \<mapsto> VFloat (3 / 4)],
                                 Some [''importance'' \<mapsto> VFloat (1 / 4)],
                                 Some [''importance'' \<mapsto> VFloat (1 / 8)]]],
              distances = [[1 / 4, 1 / 2, 1 / 4, 0]]\<rparr>;
        W = example_world r;
        st = \<lparr>history = [Add ''a'' ''doc a'' None, Add ''b'' ''doc b'' None,
                         Add ''c'' ''doc c'' None, Add ''d'' ''doc d'' None],
              similarity_threshold = SIMILARITY_THRESHOLD, uuids_drawn = 4\<rparr>
    in readable W r \<and> vs_count W st \<noteq> 0 \<and> (0 :: int) \<le> 2 \<and>
       (\<exists>ms. retrieve W ''q'' 2 (1 / 4) st = Inr ms \<and> map mem_id ms = [''a'', ''c''] \<and>
             map (blended W) ms = [2702159776422297 / 2 ^ 52, 2702159776422297 / 2 ^ 52] \<and>
             sorted_wrt (\<lambda>a b. blended W a \<ge> blended W b) ms \<and> length ms \<le> 2))"
proof -
  define r where "r = \<lparr>ids = [[''a'', ''b'', ''c'', ''d'']],
              documents = [[''doc a'', ''doc b'', ''doc c'', ''doc d'']],
              metadatas = Some [[Some [''importance'' \<mapsto> VFloat (1 / 4)],
                                 Some [''importance'' \<mapsto> VFloat (3 / 4)],
                                 Some [''importance'' \<mapsto> VFloat (1 / 4)],
                                 Some [''importance'' \<mapsto> VFloat (1 / 8)]]],
              distances = [[1 / 4, 1 / 2, 1 / 4, 0 :: real]]\<rparr>"
  define W where "W = example_world r"
  define st where "st = \<lparr>history = [Add ''a'' ''doc a'' None, Add ''b'' ''doc b'' None,
                         Add ''c'' ''doc c'' None, Add ''d'' ''doc d'' None],
              similarity_threshold = SIMILARITY_THRESHOLD, uuids_drawn = 4\<rparr>"
  define ma where "ma = \<lparr>mem_id = ''a'', mem_content = ''doc a'',
      mem_metadata = [''importance'' \<mapsto> VFloat (1 / 4)], mem_similarity = 3 / 4\<rparr>"
  define mb where "mb = \<lparr>mem_id = ''b'', mem_content = ''doc b'',
      mem_metadata = [''importance'' \<mapsto> VFloat (3 / 4)], mem_similarity = 1 / 2\<rparr>"
  define mc where "mc = \<lparr>mem_id = ''c'', mem_content = ''doc c'',
      mem_metadata = [''importance'' \<mapsto> VFloat (1 / 4)], mem_similarity = 3 / 4\<rparr>"
  have rd: "readable W r"
    by (simp add: readable_def parallel_lists_def r_def importance_of_def py_float_def)
  have c: "vs_count W st \<noteq> 0" by (simp add: vs_count_def W_def st_def example_world_def)
  have ka: "blended W ma = 2702159776422297 / 2 ^ 52"
    unfolding W_def ma_def example_world_def by code_simp
  have kb: "blended W mb = 2589569785738035 / 2 ^ 52"
    unfolding W_def mb_def example_world_def by code_simp
  have kc: "blended W mc = 2702159776422297 / 2 ^ 52"
    unfolding W_def mc_def example_world_def by code_simp
  have srt: "sort_reverse (blended W) [ma, mb, mc] = [ma, mc, mb]"
    by (simp add: sort_reverse_def ka kb kc)
  have col: "collect W (1 / 4) [''a'', ''b'', ''c'', ''d'']
               [Some [''importance'' \<mapsto> VFloat (1 / 4)], Some [''importance'' \<mapsto> VFloat (3 / 4)],
                Some [''importance'' \<mapsto> VFloat (1 / 4)], Some [''importance'' \<mapsto> VFloat (1 / 8)]]
               [1 / 4, 1 / 2, 1 / 4, 0] 0 [''doc a'', ''doc b'', ''doc c'', ''doc d''] []
             = Inr [ma, mb, mc]"
    by (simp add: item_def importance_of_def py_float_def fl_half fl_three_fourths
          ma_def mb_def mc_def)
  have run: "retrieve W ''q'' 2 (1 / 4) st = Inr [ma, mc]"
  proof -
    have "vs_query W st ''q'' (min (2 * 3) (int (vs_count W st))) = Inr r"
      by (simp add: vs_query_def vs_count_def W_def st_def example_world_def)
    moreover have "rerank W r 2 (1 / 4) = Inr [ma, mc]"
      by (simp add: rerank_def item_def r_def col srt slice_to_def del: collect.simps)
    ultimately show ?thesis using c by (simp add: retrieve_def)
  qed
  have b: "map (blended W) [ma, mc] = [2702159776422297 / 2 ^ 52, 2702159776422297 / 2 ^ 52]"
    by (simp add: ka kc)
  have i: "map mem_id [ma, mc] = [''a'', ''c'']" by (simp add: ma_def mc_def)
  from retrieve_reranks [of W "''q''" 2 "1 / 4" st "[ma, mc]"] run
  have s: "sorted_wrt (\<lambda>a b. blended W a \<ge> blended W b) [ma, mc]" and l: "length [ma, mc] \<le> 2"
    by simp_all
  have "\<exists>ms. retrieve W ''q'' 2 (1 / 4) st = Inr ms \<and> map mem_id ms = [''a'', ''c''] \<and>
             map (blended W) ms = [2702159776422297 / 2 ^ 52, 2702159776422297 / 2 ^ 52] \<and>
             sorted_wrt (\<lambda>a b. blended W a \<ge> blended W b) ms \<and> length ms \<le> 2"
  proof (intro exI conjI)
    show "retrieve W ''q'' 2 (1 / 4) st = Inr [ma, mc]" by (rule run)
    show "map mem_id [ma, mc] = [''a'', ''c'']" by (rule i)
    show "map (blended W) [ma, mc] = [2702159776422297 / 2 ^ 52, 2702159776422297 / 2 ^ 52]"
      by (rule b)
    show "sorted_wrt (\<lambda>a b. blended W a \<ge> blended W b) [ma, mc]" by (rule s)
    show "length [ma, mc] \<le> 2" by (rule l)
  qed
  with rd c show ?thesis
    unfolding Let_def W_def st_def r_def by simp
qed

end
